theory Spec2Isabelle
  imports Main "HOL-Library.Sublist"
begin

section \<open>Python values used by odis2vcp.py\<close>

text \<open>
  A Python \<open>str\<close> is a sequence of Unicode code points, so it is modelled as a list of
  natural numbers (not as a list of bytes): \<open>len\<close> counts code points, and
  \<open>encode('utf-8')\<close> turns them into one to four bytes each. \<open>py\<close> writes an ASCII
  literal of the source as such a string. A \<open>bytes\<close> object is a list of numbers
  below 256.
\<close>

type_synonym pystr = "nat list"

type_synonym pybytes = "nat list"

definition py :: "string \<Rightarrow> pystr" where
  "py s = map of_char s"

text \<open>
  The exceptions that the functions of the script can raise. \<open>UnboundLocalError\<close>
  carries the name of the local variable that was read before any assignment;
  \<open>binascii_Error\<close> carries the message of \<open>binascii.unhexlify\<close>.
\<close>

datatype py_error =
    IndexError
  | AttributeError
  | UnboundLocalError string
  | ValueError
  | binascii_Error string
  | UnicodeEncodeError
  | OSError
  | ExpatError

subsection \<open>\<open>str.replace\<close>\<close>

text \<open>
  \<open>s.replace(old, new)\<close>: the non-overlapping occurrences of \<open>old\<close> are replaced from
  left to right, in one pass (the result is not scanned again). With an empty \<open>old\<close>,
  Python puts \<open>new\<close> before every character and at the end.
\<close>

function replace :: "'a list \<Rightarrow> 'a list \<Rightarrow> 'a list \<Rightarrow> 'a list" where
  "replace [] old new = (if old = [] then new else [])"
| "replace (c # cs) old new =
     (if old = [] then new @ c # replace cs old new
      else if prefix old (c # cs) then new @ replace (drop (length old) (c # cs)) old new
      else c # replace cs old new)"
  by pat_completeness auto
termination
  by (relation "measure (\<lambda>(s, old, new). length s)") auto

declare replace.simps [simp del]

text \<open>
  Lines 256-257 and 318-319: the payload with every \<open>0x\<close> and then every comma
  removed. The source writes the two \<open>replace\<close> calls out in both places.
\<close>

definition strip_0x_commas :: "pystr \<Rightarrow> pystr" where
  "strip_0x_commas dataset = replace (replace dataset (py ''0x'') (py '''')) (py '','') (py '''')"

subsection \<open>\<open>hex\<close>, \<open>str.encode('utf-8')\<close> and \<open>binascii.unhexlify\<close>\<close>

definition hex_digit :: "nat \<Rightarrow> nat" where
  "hex_digit d = (if d < 10 then 48 + d else 87 + d)"

function hex_digits :: "nat \<Rightarrow> pystr" where
  "hex_digits n =
     (if n < 16 then [hex_digit n] else hex_digits (n div 16) @ [hex_digit (n mod 16)])"
  by pat_completeness auto
termination
  by (relation "measure id") auto

declare hex_digits.simps [simp del]

text \<open>\<open>hex(n)\<close> for a non-negative \<open>n\<close>: \<open>0x\<close> and the lowercase digits.\<close>

definition hex :: "nat \<Rightarrow> pystr" where
  "hex n = py ''0x'' @ hex_digits n"

text \<open>
  The UTF-8 encoding of one code point. Python refuses to encode a lone surrogate
  (U+D800 to U+DFFF) with \<open>UnicodeEncodeError\<close>.
\<close>

definition utf8_char :: "nat \<Rightarrow> py_error + pybytes" where
  "utf8_char c =
     (if c < 0x80 then Inr [c]
      else if c < 0x800 then Inr [0xC0 + c div 64, 0x80 + c mod 64]
      else if 0xD800 \<le> c \<and> c \<le> 0xDFFF then Inl UnicodeEncodeError
      else if c < 0x10000 then
        Inr [0xE0 + c div 4096, 0x80 + (c div 64) mod 64, 0x80 + c mod 64]
      else
        Inr [0xF0 + c div 262144, 0x80 + (c div 4096) mod 64, 0x80 + (c div 64) mod 64,
             0x80 + c mod 64])"

fun encode_utf8 :: "pystr \<Rightarrow> py_error + pybytes" where
  "encode_utf8 [] = Inr []"
| "encode_utf8 (c # cs) =
     (case utf8_char c of
        Inl e \<Rightarrow> Inl e
      | Inr bs \<Rightarrow> (case encode_utf8 cs of Inl e \<Rightarrow> Inl e | Inr bs' \<Rightarrow> Inr (bs @ bs')))"

text \<open>
  \<open>binascii.unhexlify\<close> on a \<open>str\<close>: a string with a non-ASCII character is refused
  with \<open>ValueError\<close>, then one of odd length with \<open>binascii.Error\<close>, then the digits
  are read in pairs, upper or lower case.
\<close>

definition digit_value :: "nat \<Rightarrow> nat option" where
  "digit_value c =
     (if 48 \<le> c \<and> c \<le> 57 then Some (c - 48)
      else if 97 \<le> c \<and> c \<le> 102 then Some (c - 87)
      else if 65 \<le> c \<and> c \<le> 70 then Some (c - 55)
      else None)"

fun a2b_hex :: "pystr \<Rightarrow> py_error + pybytes" where
  "a2b_hex (a # b # cs) =
     (case digit_value a of
        None \<Rightarrow> Inl (binascii_Error ''Non-hexadecimal digit found'')
      | Some hi \<Rightarrow>
          (case digit_value b of
             None \<Rightarrow> Inl (binascii_Error ''Non-hexadecimal digit found'')
           | Some lo \<Rightarrow>
               (case a2b_hex cs of
                  Inl e \<Rightarrow> Inl e
                | Inr bs \<Rightarrow> Inr ((16 * hi + lo) # bs))))"
| "a2b_hex [a] = Inl (binascii_Error ''Odd-length string'')"
| "a2b_hex [] = Inr []"

definition unhexlify :: "pystr \<Rightarrow> py_error + pybytes" where
  "unhexlify s =
     (if \<exists>c \<in> set s. 128 \<le> c then Inl ValueError
      else if odd (length s) then Inl (binascii_Error ''Odd-length string'')
      else a2b_hex s)"

section \<open>The document tree of \<open>xml.dom.minidom\<close>\<close>

text \<open>
  The nodes that the parser builds below the document element. Every kind but an
  element has a \<open>data\<close> attribute; \<open>attributes\<close> is the element's name-to-value table.
\<close>

datatype node =
    Text pystr
  | CDATASection pystr
  | Comment pystr
  | ProcessingInstruction pystr pystr
  | ElementNode element
and element =
    Element (tagName: pystr) (attributes: "(pystr \<times> pystr) list") (childNodes: "node list")

definition hasAttribute :: "element \<Rightarrow> pystr \<Rightarrow> bool" where
  "hasAttribute e name = (map_of (attributes e) name \<noteq> None)"

definition getAttribute :: "element \<Rightarrow> pystr \<Rightarrow> pystr" where
  "getAttribute e name = (case map_of (attributes e) name of None \<Rightarrow> py '''' | Some v \<Rightarrow> v)"

text \<open>
  \<open>e.getElementsByTagName(name)\<close>: the elements named \<open>name\<close> among the descendants of
  \<open>e\<close>, in document order (an element before its own children); \<open>e\<close> itself is not
  among them.
\<close>

fun elements_in_node :: "pystr \<Rightarrow> node \<Rightarrow> element list"
and getElementsByTagName :: "element \<Rightarrow> pystr \<Rightarrow> element list" where
  "elements_in_node name (ElementNode e) =
     (if tagName e = name then [e] else []) @ getElementsByTagName e name"
| "elements_in_node name (Text d) = []"
| "elements_in_node name (CDATASection d) = []"
| "elements_in_node name (Comment d) = []"
| "elements_in_node name (ProcessingInstruction t d) = []"
| "getElementsByTagName (Element t a cs) name = concat (map (elements_in_node name) cs)"

text \<open>\<open>n.data\<close>: an element has no such attribute.\<close>

fun node_data :: "node \<Rightarrow> py_error + pystr" where
  "node_data (Text d) = Inr d"
| "node_data (CDATASection d) = Inr d"
| "node_data (Comment d) = Inr d"
| "node_data (ProcessingInstruction t d) = Inr d"
| "node_data (ElementNode e) = Inl AttributeError"

text \<open>Line 314, \<open>parameter_data.childNodes[0].data\<close>.\<close>

definition first_child_data :: "element \<Rightarrow> py_error + pystr" where
  "first_child_data e = (case childNodes e of [] \<Rightarrow> Inl IndexError | c # cs \<Rightarrow> node_data c)"

section \<open>The state of a run\<close>

text \<open>
  What a file holds after the script wrote it: the bytes of a raw export, or the
  document that \<open>writexml\<close> serialises (with the indentation given in the source).
\<close>

datatype content = Bytes pybytes | XmlDocument element

text \<open>The calls of \<open>logging\<close>, with their arguments.\<close>

datatype log_event =
    Info_Module pystr
  | Info_Start_Address pystr
  | Info_ZDC_Name pystr
  | Info_ZDC_version pystr
  | Info_Login pystr
  | Info_Extracting_raw pystr
  | Info_Extracting_VCP pystr
  | Info_datasets_extracted_format int int pystr
  | Info_datasets_extracted_VCP int int
  | Exception_Fatal_error py_error

text \<open>
  The two module-level counters (lines 24-25), and what the script leaves outside
  itself: the log records and the files written, in the order of writing.
\<close>

record world =
  dataset_counter :: int
  extracted_dataset_counter :: int
  logged :: "log_event list"
  files :: "(pystr \<times> content) list"

text \<open>The state when the module has been loaded.\<close>

definition module_loaded :: world where
  "module_loaded =
     \<lparr>dataset_counter = 0, extracted_dataset_counter = 0, logged = [], files = []\<rparr>"

text \<open>
  What the script asks of its surroundings: \<open>mdom.parse(path).documentElement\<close>, and
  whether \<open>open\<close> succeeds on a path for writing.
\<close>

record env =
  mdom_parse :: "pystr \<Rightarrow> py_error + element"
  can_open :: "pystr \<Rightarrow> bool"

text \<open>
  The local variables of \<open>_parse_small_oe_file\<close> that live across the iterations of
  its loop; \<open>None\<close> is a variable not assigned yet.
\<close>

record locals =
  diagnostic_address :: "pystr option"
  start_address :: "pystr option"
  zdc_name :: "pystr option"
  zdc_version :: "pystr option"
  login :: "pystr option"
  filename :: "pystr option"

definition no_locals :: locals where
  "no_locals =
     \<lparr>diagnostic_address = None, start_address = None, zdc_name = None, zdc_version = None,
      login = None, filename = None\<rparr>"

definition info :: "log_event \<Rightarrow> world \<Rightarrow> world" where
  "info ev w = w\<lparr>logged := logged w @ [ev]\<rparr>"

section \<open>The two converters\<close>

text \<open>Lines 199-211, \<open>_extract_to_raw\<close>. The file is opened before the payload is decoded.\<close>

definition extract_to_raw :: "env \<Rightarrow> pystr \<Rightarrow> pystr \<Rightarrow> pystr \<Rightarrow> world \<Rightarrow> py_error option \<times> world" where
  "extract_to_raw ev dataset fname diag w =
     (let w1 = w\<lparr>extracted_dataset_counter := extracted_dataset_counter w + 1\<rparr>;
          path = diag @ py '' '' @ fname @ py ''.bin'';
          w2 = info (Info_Extracting_raw path) w1
      in if \<not> can_open ev path then (Some OSError, w2)
         else (case unhexlify dataset of
                 Inl e \<Rightarrow> (Some e, w2\<lparr>files := files w2 @ [(path, Bytes [])]\<rparr>)
               | Inr binary_data \<Rightarrow> (None, w2\<lparr>files := files w2 @ [(path, Bytes binary_data)]\<rparr>)))"

definition text_element :: "string \<Rightarrow> pystr \<Rightarrow> node" where
  "text_element tag d = ElementNode (Element (py tag) [] [Text d])"

text \<open>Lines 219-269: the document built for one dataset.\<close>

definition vcp_document :: "pystr \<Rightarrow> pystr \<Rightarrow> pystr \<Rightarrow> pystr \<Rightarrow> pystr \<Rightarrow> pystr \<Rightarrow> element" where
  "vcp_document lg zn zv sa dataset_size dataset_data =
     Element (py ''SW-CNT'') []
       [ElementNode (Element (py ''IDENT'') []
          [text_element ''LOGIN'' lg,
           text_element ''DATEIID'' zn,
           text_element ''VERSION-INHALT'' zv]),
        ElementNode (Element (py ''DATENBEREICHE'') []
          [ElementNode (Element (py ''DATENBEREICH'') []
             [text_element ''DATEN-NAME'' zn,
              text_element ''DATEN-FORMAT-NAME'' (py ''DFN_HEX''),
              text_element ''START-ADR'' sa,
              text_element ''GROESSE-DEKOMPRIMIERT'' dataset_size,
              text_element ''DATEN'' dataset_data])])]"

text \<open>Lines 215-276, \<open>_convert_to_vcp\<close>.\<close>

definition convert_to_vcp ::
  "env \<Rightarrow> pystr \<Rightarrow> pystr \<Rightarrow> pystr \<Rightarrow> pystr \<Rightarrow> pystr \<Rightarrow> pystr \<Rightarrow> pystr \<Rightarrow> world \<Rightarrow> py_error option \<times> world" where
  "convert_to_vcp ev dataset_data diag sa zn zv lg fname w =
     (let w1 = w\<lparr>extracted_dataset_counter := extracted_dataset_counter w + 1\<rparr>;
          dataset_raw = strip_0x_commas dataset_data
      in case encode_utf8 dataset_raw of
           Inl e \<Rightarrow> (Some e, w1)
         | Inr encoded \<Rightarrow>
             (let dataset_size_calc = length encoded div 2;
                  doc = vcp_document lg zn zv sa (hex dataset_size_calc) dataset_data;
                  path = diag @ py '' VCP '' @ fname @ py ''.xml'';
                  w2 = info (Info_Extracting_VCP path) w1
              in if \<not> can_open ev path then (Some OSError, w2)
                 else (None, w2\<lparr>files := files w2 @ [(path, XmlDocument doc)]\<rparr>)))"

section \<open>The loop of \<open>_parse_small_oe_file\<close>\<close>

text \<open>Lines 290-306: the four attributes that are only read and logged.\<close>

definition read_diagnostic_address :: "element \<Rightarrow> locals \<times> world \<Rightarrow> locals \<times> world" where
  "read_diagnostic_address e lw =
     (case lw of (l, w) \<Rightarrow>
        if hasAttribute e (py ''DIAGNOSTIC_ADDRESS'') then
          (let d = replace (getAttribute e (py ''DIAGNOSTIC_ADDRESS'')) (py ''0x00'') (py '''')
           in (l\<lparr>diagnostic_address := Some d\<rparr>, info (Info_Module d) w))
        else (l, w))"

definition read_start_address :: "element \<Rightarrow> locals \<times> world \<Rightarrow> locals \<times> world" where
  "read_start_address e lw =
     (case lw of (l, w) \<Rightarrow>
        if hasAttribute e (py ''START_ADDRESS'') then
          (let v = getAttribute e (py ''START_ADDRESS'')
           in (l\<lparr>start_address := Some v\<rparr>, info (Info_Start_Address v) w))
        else (l, w))"

definition read_zdc_name :: "element \<Rightarrow> locals \<times> world \<Rightarrow> locals \<times> world" where
  "read_zdc_name e lw =
     (case lw of (l, w) \<Rightarrow>
        if hasAttribute e (py ''ZDC_NAME'') then
          (let v = getAttribute e (py ''ZDC_NAME'')
           in (l\<lparr>zdc_name := Some v\<rparr>, info (Info_ZDC_Name v) w))
        else (l, w))"

definition read_zdc_version :: "element \<Rightarrow> locals \<times> world \<Rightarrow> locals \<times> world" where
  "read_zdc_version e lw =
     (case lw of (l, w) \<Rightarrow>
        if hasAttribute e (py ''ZDC_VERSION'') then
          (let v = getAttribute e (py ''ZDC_VERSION'')
           in (l\<lparr>zdc_version := Some v\<rparr>, info (Info_ZDC_version v) w))
        else (l, w))"

text \<open>
  Lines 308-311: \<open>LOGIN\<close>, and the file name, which is assigned only here. Reading
  \<open>start_address\<close> or \<open>zdc_name\<close> before any assignment raises.
\<close>

definition read_login :: "pystr \<Rightarrow> element \<Rightarrow> locals \<times> world \<Rightarrow> (py_error + locals) \<times> world" where
  "read_login file_prefix e lw =
     (case lw of (l, w) \<Rightarrow>
        if hasAttribute e (py ''LOGIN'') then
          (let v = getAttribute e (py ''LOGIN'');
               l1 = l\<lparr>login := Some v\<rparr>;
               w1 = info (Info_Login v) w
           in case start_address l1 of
                None \<Rightarrow> (Inl (UnboundLocalError ''start_address''), w1)
              | Some sa \<Rightarrow>
                  (case zdc_name l1 of
                     None \<Rightarrow> (Inl (UnboundLocalError ''zdc_name''), w1)
                   | Some zn \<Rightarrow>
                       (Inr (l1\<lparr>filename := Some (sa @ py '' '' @ zn @ py '' - '' @ file_prefix)\<rparr>),
                        w1)))
        else (Inr l, w))"

text \<open>
  Lines 317-322: the call of a converter. The arguments are evaluated from left to
  right before the call, so an unassigned variable raises before the converter runs.
\<close>

definition call_extract_to_raw :: "env \<Rightarrow> pystr \<Rightarrow> locals \<Rightarrow> world \<Rightarrow> py_error option \<times> world" where
  "call_extract_to_raw ev dataset l w =
     (case filename l of
        None \<Rightarrow> (Some (UnboundLocalError ''filename''), w)
      | Some fname \<Rightarrow>
          (case diagnostic_address l of
             None \<Rightarrow> (Some (UnboundLocalError ''diagnostic_address''), w)
           | Some diag \<Rightarrow> extract_to_raw ev (strip_0x_commas dataset) fname diag w))"

definition call_convert_to_vcp :: "env \<Rightarrow> pystr \<Rightarrow> locals \<Rightarrow> world \<Rightarrow> py_error option \<times> world" where
  "call_convert_to_vcp ev dataset l w =
     (case diagnostic_address l of
        None \<Rightarrow> (Some (UnboundLocalError ''diagnostic_address''), w)
      | Some diag \<Rightarrow>
     (case start_address l of
        None \<Rightarrow> (Some (UnboundLocalError ''start_address''), w)
      | Some sa \<Rightarrow>
     (case zdc_name l of
        None \<Rightarrow> (Some (UnboundLocalError ''zdc_name''), w)
      | Some zn \<Rightarrow>
     (case zdc_version l of
        None \<Rightarrow> (Some (UnboundLocalError ''zdc_version''), w)
      | Some zv \<Rightarrow>
     (case login l of
        None \<Rightarrow> (Some (UnboundLocalError ''login''), w)
      | Some lg \<Rightarrow>
     (case filename l of
        None \<Rightarrow> (Some (UnboundLocalError ''filename''), w)
      | Some fname \<Rightarrow> convert_to_vcp ev dataset diag sa zn zv lg fname w))))))"

text \<open>
  Lines 313-322: count the element, take the payload, convert. \<open>file_output_format\<close>
  is \<open>None\<close> when the command line gave no \<open>--fmt\<close>.
\<close>

definition convert_dataset ::
  "env \<Rightarrow> pystr option \<Rightarrow> element \<Rightarrow> locals \<Rightarrow> world \<Rightarrow> py_error option \<times> world" where
  "convert_dataset ev file_output_format e l w =
     (let w1 = w\<lparr>dataset_counter := dataset_counter w + 1\<rparr>
      in case first_child_data e of
           Inl err \<Rightarrow> (Some err, w1)
         | Inr dataset \<Rightarrow>
             if file_output_format = Some (py ''raw'') then call_extract_to_raw ev dataset l w1
             else call_convert_to_vcp ev dataset l w1)"

text \<open>Lines 290-322: one iteration of the loop.\<close>

definition loop_body ::
  "env \<Rightarrow> pystr option \<Rightarrow> pystr \<Rightarrow> element \<Rightarrow> locals \<Rightarrow> world \<Rightarrow> (py_error + locals) \<times> world" where
  "loop_body ev file_output_format file_prefix e l w =
     (case read_login file_prefix e
             (read_zdc_version e (read_zdc_name e (read_start_address e
                (read_diagnostic_address e (l, w))))) of
        (Inl err, w1) \<Rightarrow> (Inl err, w1)
      | (Inr l1, w1) \<Rightarrow>
          (case convert_dataset ev file_output_format e l1 w1 of
             (Some err, w2) \<Rightarrow> (Inl err, w2)
           | (None, w2) \<Rightarrow> (Inr l1, w2)))"

text \<open>Lines 289-322: the loop; an exception ends it.\<close>

fun for_loop ::
  "env \<Rightarrow> pystr option \<Rightarrow> pystr \<Rightarrow> element list \<Rightarrow> locals \<Rightarrow> world \<Rightarrow> (py_error + locals) \<times> world" where
  "for_loop ev file_output_format file_prefix [] l w = (Inr l, w)"
| "for_loop ev file_output_format file_prefix (e # es) l w =
     (case loop_body ev file_output_format file_prefix e l w of
        (Inl err, w1) \<Rightarrow> (Inl err, w1)
      | (Inr l1, w1) \<Rightarrow> for_loop ev file_output_format file_prefix es l1 w1)"

text \<open>Lines 281-322, \<open>_parse_small_oe_file\<close>.\<close>

definition parse_small_oe_file ::
  "env \<Rightarrow> pystr option \<Rightarrow> pystr \<Rightarrow> pystr \<Rightarrow> world \<Rightarrow> py_error option \<times> world" where
  "parse_small_oe_file ev file_output_format file_prefix input_file w =
     (case mdom_parse ev input_file of
        Inl err \<Rightarrow> (Some err, w)
      | Inr collection \<Rightarrow>
          (case for_loop ev file_output_format file_prefix
                  (getElementsByTagName collection (py ''PARAMETER_DATA'')) no_locals w of
             (Inl err, w1) \<Rightarrow> (Some err, w1)
           | (Inr l, w1) \<Rightarrow> (None, w1)))"

text \<open>Lines 182-195, \<open>_run\<close>: the entry point. Every exception is logged and ends the run.\<close>

definition run :: "env \<Rightarrow> pystr option \<Rightarrow> pystr \<Rightarrow> pystr \<Rightarrow> world \<Rightarrow> world" where
  "run ev file_output_format description path w =
     (case parse_small_oe_file ev file_output_format description path w of
        (Some err, w1) \<Rightarrow> info (Exception_Fatal_error err) w1
      | (None, w1) \<Rightarrow>
          if file_output_format = Some (py ''raw'') then
            info (Info_datasets_extracted_format (extracted_dataset_counter w1)
                    (dataset_counter w1) (py ''raw'')) w1
          else
            info (Info_datasets_extracted_VCP (extracted_dataset_counter w1)
                    (dataset_counter w1)) w1)"

section \<open>Notions used to state the properties\<close>

text \<open>
  The value of the attribute \<open>name\<close> on the last element of \<open>es\<close> that carries it:
  the most recently observed value, \<open>None\<close> when no element carried it.
\<close>

definition last_declared :: "pystr \<Rightarrow> element list \<Rightarrow> pystr option" where
  "last_declared name es =
     map_option (\<lambda>e. getAttribute e name) (find (\<lambda>e. hasAttribute e name) (rev es))"

text \<open>The elements up to, and with, the last one that carries \<open>LOGIN\<close>.\<close>

definition upto_last_login :: "element list \<Rightarrow> element list" where
  "upto_last_login es = rev (dropWhile (\<lambda>e. \<not> hasAttribute e (py ''LOGIN'')) (rev es))"

text \<open>The separator and the suffix of the two kinds of output path.\<close>

definition path_infix :: "pystr option \<Rightarrow> pystr" where
  "path_infix file_output_format =
     (if file_output_format = Some (py ''raw'') then py '' '' else py '' VCP '')"

definition path_suffix :: "pystr option \<Rightarrow> pystr" where
  "path_suffix file_output_format =
     (if file_output_format = Some (py ''raw'') then py ''.bin'' else py ''.xml'')"

text \<open>
  The number of elements named \<open>name\<close> in a tree, the top element counted too: what
  "the record-tagged elements of the document" are when the tree is the document's.
\<close>

fun count_in_node :: "pystr \<Rightarrow> node \<Rightarrow> nat"
and count_tagged :: "pystr \<Rightarrow> element \<Rightarrow> nat" where
  "count_in_node name (ElementNode e) = count_tagged name e"
| "count_in_node name (Text d) = 0"
| "count_in_node name (CDATASection d) = 0"
| "count_in_node name (Comment d) = 0"
| "count_in_node name (ProcessingInstruction t d) = 0"
| "count_tagged name (Element t a cs) =
     (if t = name then 1 else 0) + sum_list (map (count_in_node name) cs)"



text \<open>
  The number that a hexadecimal literal with its \<open>0x\<close> denotes, as \<open>int(s, 16)\<close>
  reads it.
\<close>

definition digits_number :: "pystr \<Rightarrow> nat" where
  "digits_number s =
     foldl (\<lambda>acc c. 16 * acc + (case digit_value c of None \<Rightarrow> 0 | Some v \<Rightarrow> v)) 0 s"

definition hex_number :: "pystr \<Rightarrow> nat" where
  "hex_number s = digits_number (drop 2 s)"

text \<open>The characters \<open>0\<close> to \<open>9\<close> and \<open>a\<close> to \<open>f\<close>.\<close>

definition lowercase_hex_digit :: "nat \<Rightarrow> bool" where
  "lowercase_hex_digit c = ((48 \<le> c \<and> c \<le> 57) \<or> (97 \<le> c \<and> c \<le> 102))"

text \<open>The text of the elements named \<open>tag\<close> in a document: their child nodes.\<close>

definition texts_of :: "element \<Rightarrow> string \<Rightarrow> node list list" where
  "texts_of doc tag = map childNodes (getElementsByTagName doc (py tag))"

subsection \<open>What one iteration does to the local variables\<close>

definition attributes_read :: "element \<Rightarrow> locals \<Rightarrow> locals" where
  "attributes_read e l =
     l\<lparr>diagnostic_address :=
          (if hasAttribute e (py ''DIAGNOSTIC_ADDRESS'')
           then Some (replace (getAttribute e (py ''DIAGNOSTIC_ADDRESS'')) (py ''0x00'') (py ''''))
           else diagnostic_address l),
       start_address :=
          (if hasAttribute e (py ''START_ADDRESS'') then Some (getAttribute e (py ''START_ADDRESS''))
           else start_address l),
       zdc_name :=
          (if hasAttribute e (py ''ZDC_NAME'') then Some (getAttribute e (py ''ZDC_NAME''))
           else zdc_name l),
       zdc_version :=
          (if hasAttribute e (py ''ZDC_VERSION'') then Some (getAttribute e (py ''ZDC_VERSION''))
           else zdc_version l)\<rparr>"

definition attributes_logged :: "element \<Rightarrow> log_event list" where
  "attributes_logged e =
     (if hasAttribute e (py ''DIAGNOSTIC_ADDRESS'')
      then [Info_Module (replace (getAttribute e (py ''DIAGNOSTIC_ADDRESS'')) (py ''0x00'') (py ''''))]
      else [])
     @ (if hasAttribute e (py ''START_ADDRESS'')
        then [Info_Start_Address (getAttribute e (py ''START_ADDRESS''))] else [])
     @ (if hasAttribute e (py ''ZDC_NAME'')
        then [Info_ZDC_Name (getAttribute e (py ''ZDC_NAME''))] else [])
     @ (if hasAttribute e (py ''ZDC_VERSION'')
        then [Info_ZDC_version (getAttribute e (py ''ZDC_VERSION''))] else [])"

definition locals_after :: "pystr \<Rightarrow> element \<Rightarrow> locals \<Rightarrow> locals" where
  "locals_after file_prefix e l =
     (let l4 = attributes_read e l
      in if hasAttribute e (py ''LOGIN'') then
           l4\<lparr>login := Some (getAttribute e (py ''LOGIN'')),
              filename := Some (the (start_address l4) @ py '' '' @ the (zdc_name l4)
                                  @ py '' - '' @ file_prefix)\<rparr>
         else l4)"

subsection \<open>Example documents\<close>

text \<open>
  A record with the five attributes, one that declares a start address only, one with no
  attribute at all, one with no child node, and one whose only child is a comment.
\<close>

definition rec_full :: element where
  "rec_full =
     Element (py ''PARAMETER_DATA'')
       [(py ''DIAGNOSTIC_ADDRESS'', py ''0x0019''), (py ''START_ADDRESS'', py ''A''),
        (py ''ZDC_NAME'', py ''Z''), (py ''ZDC_VERSION'', py ''1''), (py ''LOGIN'', py ''L'')]
       [Text (py ''0x0A,0xFF'')]"

definition rec_start_only :: element where
  "rec_start_only =
     Element (py ''PARAMETER_DATA'') [(py ''START_ADDRESS'', py ''B'')] [Text (py ''0x01'')]"

definition rec_bare :: element where
  "rec_bare = Element (py ''PARAMETER_DATA'') [] [Text (py ''0x02'')]"

definition rec_no_child :: element where
  "rec_no_child = Element (py ''PARAMETER_DATA'') [] []"

definition rec_comment :: element where
  "rec_comment =
     Element (py ''PARAMETER_DATA'')
       [(py ''DIAGNOSTIC_ADDRESS'', py ''0x0019''), (py ''START_ADDRESS'', py ''A''),
        (py ''ZDC_NAME'', py ''Z''), (py ''ZDC_VERSION'', py ''1''), (py ''LOGIN'', py ''L'')]
       [Comment (py ''0A'')]"

definition document :: "element list \<Rightarrow> element" where
  "document es = Element (py ''MESSAGE'') [] (map ElementNode es)"

text \<open>Surroundings in which every path parses to \<open>root\<close> and every file can be opened.\<close>

definition reads :: "element \<Rightarrow> env" where
  "reads root = \<lparr>mdom_parse = (\<lambda>path. Inr root), can_open = (\<lambda>path. True)\<rparr>"

section \<open>Evaluating the model on a concrete input\<close>

lemmas eval_defs = run_def parse_small_oe_file_def loop_body_def convert_dataset_def
  call_convert_to_vcp_def call_extract_to_raw_def read_login_def read_zdc_version_def
  read_zdc_name_def read_start_address_def read_diagnostic_address_def
  convert_to_vcp_def extract_to_raw_def vcp_document_def text_element_def info_def
  first_child_data_def hasAttribute_def getAttribute_def strip_0x_commas_def
  unhexlify_def digit_value_def utf8_char_def hex_def hex_digits.simps hex_digit_def
  module_loaded_def no_locals_def reads_def document_def
  rec_full_def rec_start_only_def rec_bare_def rec_no_child_def rec_comment_def
  last_declared_def upto_last_login_def path_infix_def path_suffix_def texts_of_def
  py_def replace.simps Let_def

section \<open>Strings: what \<open>replace\<close> removes\<close>

lemma py_simps: "py [] = []" "py (c # cs) = of_char c # py cs"
  by (simp_all add: py_def)

lemma replace_Nil: "old \<noteq> [] \<Longrightarrow> replace [] old new = []"
  by (simp add: replace.simps)

lemma replace_Cons_prefix:
  "old \<noteq> [] \<Longrightarrow> prefix old (c # cs) \<Longrightarrow>
   replace (c # cs) old new = new @ replace (drop (length old) (c # cs)) old new"
  by (subst replace.simps(2)) (simp only: if_True if_False)

lemma replace_Cons_no_prefix:
  "old \<noteq> [] \<Longrightarrow> \<not> prefix old (c # cs) \<Longrightarrow>
   replace (c # cs) old new = c # replace cs old new"
  by (subst replace.simps(2)) (simp only: if_True if_False)

text \<open>A string in which \<open>old\<close> does not occur is left as it is.\<close>

lemma replace_no_occurrence:
  "old \<noteq> [] \<Longrightarrow> \<not> sublist old s \<Longrightarrow> replace s old new = s"
proof (induction s)
  case Nil
  then show ?case by (simp add: replace_Nil)
next
  case (Cons c cs)
  from Cons.prems have np: "\<not> prefix old (c # cs)" and "\<not> sublist old cs"
    by (simp_all add: sublist_Cons_right)
  with Cons have "replace cs old new = cs" by blast
  then show ?case by (simp add: replace_Cons_no_prefix [OF Cons.prems(1) np])
qed

text \<open>Removing occurrences never makes the string longer, and shortens it when there is one.\<close>

lemma length_replace_empty_le:
  "old \<noteq> [] \<Longrightarrow> length (replace s old []) \<le> length s"
proof (induction s rule: length_induct)
  case (1 s)
  show ?case
  proof (cases s)
    case Nil
    with 1 show ?thesis by (simp add: replace_Nil)
  next
    case (Cons c cs)
    show ?thesis
    proof (cases "prefix old (c # cs)")
      case True
      have "length (drop (length old) (c # cs)) < length s"
        using "1.prems" Cons by (cases old) simp_all
      with 1 have "length (replace (drop (length old) (c # cs)) old [])
          \<le> length (drop (length old) (c # cs))"
        by blast
      then show ?thesis
        unfolding Cons replace_Cons_prefix [OF "1.prems" True] by simp
    next
      case False
      from 1 Cons have "length (replace cs old []) \<le> length cs" by simp
      then show ?thesis
        unfolding Cons replace_Cons_no_prefix [OF "1.prems" False] by simp
    qed
  qed
qed

lemma length_replace_empty_less:
  "old \<noteq> [] \<Longrightarrow> sublist old s \<Longrightarrow> length (replace s old []) < length s"
proof (induction s)
  case Nil
  then show ?case by simp
next
  case (Cons c cs)
  show ?case
  proof (cases "prefix old (c # cs)")
    case True
    have "length (replace (drop (length old) (c # cs)) old [])
        \<le> length (drop (length old) (c # cs))"
      using Cons.prems(1) by (rule length_replace_empty_le)
    also have "\<dots> < length (c # cs)"
      using Cons.prems(1) by (cases old) simp_all
    finally show ?thesis
      unfolding replace_Cons_prefix [OF Cons.prems(1) True] by simp
  next
    case False
    with Cons.prems have "sublist old cs"
      by (simp add: sublist_Cons_right)
    with Cons have "length (replace cs old []) < length cs" by blast
    then show ?thesis
      unfolding replace_Cons_no_prefix [OF Cons.prems(1) False] by simp
  qed
qed

text \<open>Removing a single character is a filter.\<close>

lemma replace_single_filter: "replace s [x] [] = filter (\<lambda>c. c \<noteq> x) s"
  by (induction s) (simp_all add: replace.simps)

lemma length_strip_0x_commas_le:
  "length (strip_0x_commas p) \<le> length (replace p (py ''0x'') (py ''''))"
  by (simp add: strip_0x_commas_def py_simps replace_single_filter)

lemma comma_notin_strip_0x_commas: "of_char CHR '','' \<notin> set (strip_0x_commas p)"
  by (simp add: strip_0x_commas_def py_simps replace_single_filter)

text \<open>The strings that stripping leaves alone: those with no \<open>0x\<close> and no comma.\<close>

lemma strip_fixed_iff:
  "strip_0x_commas q = q \<longleftrightarrow> \<not> sublist (py ''0x'') q \<and> of_char CHR '','' \<notin> set q"
proof
  assume eq: "strip_0x_commas q = q"
  have ne: "py ''0x'' \<noteq> []" by (simp add: py_simps)
  have "\<not> sublist (py ''0x'') q"
  proof
    assume "sublist (py ''0x'') q"
    then have "length (replace q (py ''0x'') []) < length q"
      using ne by (simp add: length_replace_empty_less)
    moreover have "length (strip_0x_commas q) \<le> length (replace q (py ''0x'') [])"
      using length_strip_0x_commas_le [of q] by (simp add: py_simps)
    ultimately show False using eq by simp
  qed
  moreover have "of_char CHR '','' \<notin> set q"
    using comma_notin_strip_0x_commas [of q] eq by simp
  ultimately show "\<not> sublist (py ''0x'') q \<and> of_char CHR '','' \<notin> set q" by simp
next
  assume h: "\<not> sublist (py ''0x'') q \<and> of_char CHR '','' \<notin> set q"
  have ne: "py ''0x'' \<noteq> []" by (simp add: py_simps)
  have "replace q (py ''0x'') (py '''') = q"
    using ne h by (simp add: replace_no_occurrence)
  moreover have "filter (\<lambda>c. c \<noteq> of_char CHR '','') q = q"
    using h by (auto simp: filter_id_conv)
  ultimately show "strip_0x_commas q = q"
    by (simp add: strip_0x_commas_def py_simps replace_single_filter)
qed

text \<open>A string of hexadecimal digits holds no \<open>x\<close>, so no \<open>0x\<close>.\<close>

lemma hex_digits_no_0x:
  assumes "\<forall>c \<in> set s. digit_value c \<noteq> None"
  shows "\<not> sublist (py ''0x'') s"
proof
  assume "sublist (py ''0x'') s"
  then have "set (py ''0x'') \<subseteq> set s" by (rule set_mono_sublist)
  then have "(120::nat) \<in> set s" by (simp add: py_simps)
  with assms have "digit_value 120 \<noteq> None" by blast
  then show False by (simp add: digit_value_def)
qed

lemma strip_example: "strip_0x_commas (py ''0x0A,0xFF'') = py ''0AFF''"
  by (simp add: strip_0x_commas_def py_simps replace.simps)

section \<open>Encoding, decoding and \<open>hex\<close>\<close>



lemma utf8_char_Inl: "utf8_char c = Inl e \<Longrightarrow> e = UnicodeEncodeError"
  by (auto simp: utf8_char_def split: if_splits)



lemma encode_utf8_ascii: "\<forall>c \<in> set s. c < 128 \<Longrightarrow> encode_utf8 s = Inr s"
  by (induction s) (simp_all add: utf8_char_def)


lemma digit_value_less: "digit_value c = Some v \<Longrightarrow> v < 16"
  by (auto simp: digit_value_def split: if_splits)



text \<open>Decoding succeeds on nothing else.\<close>

lemma a2b_hex_Inr:
  "a2b_hex s = Inr bs \<Longrightarrow> (\<forall>c \<in> set s. digit_value c \<noteq> None) \<and> 2 * length bs = length s"
proof (induction s arbitrary: bs rule: a2b_hex.induct)
  case (1 a b cs)
  then show ?case by (auto split: option.splits sum.splits)
next
  case (2 a)
  then show ?case by simp
next
  case 3
  then show ?case by simp
qed

text \<open>\<open>hex\<close> writes the number that \<open>int(s, 16)\<close> reads back.\<close>

lemma digit_value_hex_digit: "d < 16 \<Longrightarrow> digit_value (hex_digit d) = Some d"
  by (auto simp: digit_value_def hex_digit_def)

lemma digits_number_snoc:
  "digits_number (s @ [c]) =
     16 * digits_number s + (case digit_value c of None \<Rightarrow> 0 | Some v \<Rightarrow> v)"
  by (simp add: digits_number_def)

lemma digits_number_hex_digits: "digits_number (hex_digits n) = n"
proof (induction n rule: hex_digits.induct)
  case (1 n)
  show ?case
  proof (cases "n < 16")
    case True
    then show ?thesis
      by (simp add: hex_digits.simps digits_number_def digit_value_hex_digit)
  next
    case False
    with 1 have ih: "digits_number (hex_digits (n div 16)) = n div 16" by simp
    have "hex_digits n = hex_digits (n div 16) @ [hex_digit (n mod 16)]"
      using False by (subst hex_digits.simps) simp
    then have "digits_number (hex_digits n) = 16 * (n div 16) + n mod 16"
      using ih by (simp only: digits_number_snoc digit_value_hex_digit) (simp add: digit_value_hex_digit)
    then show ?thesis by simp
  qed
qed

lemma hex_number_hex: "hex_number (hex n) = n"
  by (simp add: hex_number_def hex_def py_simps digits_number_hex_digits)

lemma hex_prefix: "prefix (py ''0x'') (hex n)"
  by (simp add: hex_def)

section \<open>The loop, one iteration at a time\<close>

text \<open>The most recently declared value, and the elements up to the last \<open>LOGIN\<close>, step by step.\<close>

lemma last_declared_Nil: "last_declared name [] = None"
  by (simp add: last_declared_def)

lemma last_declared_snoc:
  "last_declared name (es @ [e]) =
     (if hasAttribute e name then Some (getAttribute e name) else last_declared name es)"
  by (simp add: last_declared_def)

lemma upto_last_login_Nil: "upto_last_login [] = []"
  by (simp add: upto_last_login_def)

lemma upto_last_login_snoc:
  "upto_last_login (es @ [e]) =
     (if hasAttribute e (py ''LOGIN'') then es @ [e] else upto_last_login es)"
  by (simp add: upto_last_login_def)

lemma four_reads:
  "read_zdc_version e (read_zdc_name e (read_start_address e
      (read_diagnostic_address e (l, w)))) =
   (attributes_read e l, w\<lparr>logged := logged w @ attributes_logged e\<rparr>)"
  by (simp add: read_zdc_version_def read_zdc_name_def read_start_address_def
      read_diagnostic_address_def attributes_read_def attributes_logged_def info_def Let_def)
lemma read_login_Inr:
  assumes "read_login fp e (l, w) = (Inr l', w')"
  shows "(hasAttribute e (py ''LOGIN'') \<longrightarrow>
            start_address l \<noteq> None \<and> zdc_name l \<noteq> None
            \<and> l' = l\<lparr>login := Some (getAttribute e (py ''LOGIN'')),
                     filename := Some (the (start_address l) @ py '' '' @ the (zdc_name l)
                                  @ py '' - '' @ fp)\<rparr>)
       \<and> (\<not> hasAttribute e (py ''LOGIN'') \<longrightarrow> l' = l)
       \<and> dataset_counter w' = dataset_counter w
       \<and> extracted_dataset_counter w' = extracted_dataset_counter w
       \<and> files w' = files w"
  using assms
  by (auto simp: read_login_def info_def Let_def split: if_splits option.splits)

lemma read_login_Inl:
  assumes "read_login fp e (l, w) = (Inl err, w')"
  shows "dataset_counter w' = dataset_counter w
       \<and> extracted_dataset_counter w' = extracted_dataset_counter w
       \<and> files w' = files w"
  using assms
  by (auto simp: read_login_def info_def Let_def split: if_splits option.splits)

lemma loop_body_locals:
  assumes "loop_body ev fmt fp e l w = (Inr l', w')"
  shows "l' = locals_after fp e l"
    and "hasAttribute e (py ''LOGIN'') \<Longrightarrow>
           start_address (attributes_read e l) \<noteq> None \<and> zdc_name (attributes_read e l) \<noteq> None"
proof -
  obtain r w1 where rl: "read_login fp e (attributes_read e l,
      w\<lparr>logged := logged w @ attributes_logged e\<rparr>) = (r, w1)"
    by fastforce
  with assms obtain l1 where r: "r = Inr l1"
    by (cases r) (auto simp: loop_body_def four_reads)
  with assms rl have "l' = l1"
    by (auto simp: loop_body_def four_reads split: prod.splits option.splits)
  with rl r read_login_Inr [of fp e "attributes_read e l" _ l' w1]
  show "l' = locals_after fp e l"
    and "hasAttribute e (py ''LOGIN'') \<Longrightarrow>
           start_address (attributes_read e l) \<noteq> None \<and> zdc_name (attributes_read e l) \<noteq> None"
    by (auto simp: locals_after_def Let_def)
qed
lemma convert_to_vcp_None:
  assumes "convert_to_vcp ev d diag sa zn zv lg fname w = (None, w')"
  shows "\<exists>enc. encode_utf8 (strip_0x_commas d) = Inr enc
           \<and> can_open ev (diag @ py '' VCP '' @ fname @ py ''.xml'')
           \<and> files w' = files w @ [(diag @ py '' VCP '' @ fname @ py ''.xml'',
                 XmlDocument (vcp_document lg zn zv sa (hex (length enc div 2)) d))]"
    and "extracted_dataset_counter w' = extracted_dataset_counter w + 1"
    and "dataset_counter w' = dataset_counter w"
  using assms
  by (auto simp: convert_to_vcp_def info_def Let_def split: sum.splits if_splits)

lemma convert_to_vcp_Some:
  assumes "convert_to_vcp ev d diag sa zn zv lg fname w = (Some err, w')"
  shows "files w' = files w"
    and "extracted_dataset_counter w' = extracted_dataset_counter w + 1"
    and "dataset_counter w' = dataset_counter w"
  using assms
  by (auto simp: convert_to_vcp_def info_def Let_def split: sum.splits if_splits)

lemma extract_to_raw_None:
  assumes "extract_to_raw ev d fname diag w = (None, w')"
  shows "\<exists>bs. unhexlify d = Inr bs
           \<and> can_open ev (diag @ py '' '' @ fname @ py ''.bin'')
           \<and> files w' = files w @ [(diag @ py '' '' @ fname @ py ''.bin'', Bytes bs)]"
    and "extracted_dataset_counter w' = extracted_dataset_counter w + 1"
    and "dataset_counter w' = dataset_counter w"
  using assms
  by (auto simp: extract_to_raw_def info_def Let_def split: sum.splits if_splits)

lemma extract_to_raw_Some:
  assumes "extract_to_raw ev d fname diag w = (Some err, w')"
  shows "files w' = files w \<or> files w' = files w @ [(diag @ py '' '' @ fname @ py ''.bin'', Bytes [])]"
    and "extracted_dataset_counter w' = extracted_dataset_counter w + 1"
    and "dataset_counter w' = dataset_counter w"
  using assms
  by (auto simp: extract_to_raw_def info_def Let_def split: sum.splits if_splits)

lemma call_convert_to_vcp_None:
  assumes "call_convert_to_vcp ev d l w = (None, w')"
  shows "\<exists>diag sa zn zv lg fname.
           diagnostic_address l = Some diag \<and> start_address l = Some sa \<and> zdc_name l = Some zn
           \<and> zdc_version l = Some zv \<and> login l = Some lg \<and> filename l = Some fname
           \<and> convert_to_vcp ev d diag sa zn zv lg fname w = (None, w')"
  using assms by (auto simp: call_convert_to_vcp_def split: option.splits)

lemma call_extract_to_raw_None:
  assumes "call_extract_to_raw ev d l w = (None, w')"
  shows "\<exists>diag fname.
           diagnostic_address l = Some diag \<and> filename l = Some fname
           \<and> extract_to_raw ev (strip_0x_commas d) fname diag w = (None, w')"
  using assms by (auto simp: call_extract_to_raw_def split: option.splits)

lemma call_convert_to_vcp_counters:
  assumes "call_convert_to_vcp ev d l w = (r, w')"
  shows "dataset_counter w' = dataset_counter w"
    and "extracted_dataset_counter w' = extracted_dataset_counter w
         \<or> extracted_dataset_counter w' = extracted_dataset_counter w + 1"
    and "r = None \<longrightarrow> extracted_dataset_counter w' = extracted_dataset_counter w + 1"
  using assms convert_to_vcp_None(2,3) convert_to_vcp_Some(2,3)
  by (cases r; fastforce simp: call_convert_to_vcp_def split: option.splits)+

lemma call_extract_to_raw_counters:
  assumes "call_extract_to_raw ev d l w = (r, w')"
  shows "dataset_counter w' = dataset_counter w"
    and "extracted_dataset_counter w' = extracted_dataset_counter w
         \<or> extracted_dataset_counter w' = extracted_dataset_counter w + 1"
    and "r = None \<longrightarrow> extracted_dataset_counter w' = extracted_dataset_counter w + 1"
  using assms extract_to_raw_None(2,3) extract_to_raw_Some(2,3)
  by (cases r; fastforce simp: call_extract_to_raw_def split: option.splits)+
lemma loop_body_convert:
  assumes "loop_body ev fmt fp e l w = (Inr l', w')"
  shows "\<exists>w1. dataset_counter w1 = dataset_counter w
           \<and> extracted_dataset_counter w1 = extracted_dataset_counter w
           \<and> files w1 = files w
           \<and> convert_dataset ev fmt e l' w1 = (None, w')"
proof -
  obtain r w1 where rl: "read_login fp e (attributes_read e l,
      w\<lparr>logged := logged w @ attributes_logged e\<rparr>) = (r, w1)"
    by fastforce
  with assms obtain l1 where r: "r = Inr l1"
    by (cases r) (auto simp: loop_body_def four_reads)
  with assms rl have "convert_dataset ev fmt e l' w1 = (None, w')"
    by (auto simp: loop_body_def four_reads split: prod.splits option.splits)
  moreover from rl r read_login_Inr [of fp e "attributes_read e l" _ l1 w1]
  have "dataset_counter w1 = dataset_counter w
           \<and> extracted_dataset_counter w1 = extracted_dataset_counter w
           \<and> files w1 = files w"
    by simp
  ultimately show ?thesis by blast
qed

lemma convert_dataset_None:
  assumes "convert_dataset ev fmt e l w = (None, w')"
  shows "\<exists>d. first_child_data e = Inr d
           \<and> (if fmt = Some (py ''raw'')
               then call_extract_to_raw ev d l (w\<lparr>dataset_counter := dataset_counter w + 1\<rparr>)
               else call_convert_to_vcp ev d l (w\<lparr>dataset_counter := dataset_counter w + 1\<rparr>))
              = (None, w')"
  using assms by (auto simp: convert_dataset_def Let_def split: sum.splits if_splits)

lemma loop_body_Inr_vcp:
  assumes "fmt \<noteq> Some (py ''raw'')" and "loop_body ev fmt fp e l w = (Inr l', w')"
  shows "\<exists>diag sa zn zv lg fname d enc.
           diagnostic_address l' = Some diag \<and> start_address l' = Some sa
           \<and> zdc_name l' = Some zn \<and> zdc_version l' = Some zv \<and> login l' = Some lg
           \<and> filename l' = Some fname \<and> first_child_data e = Inr d
           \<and> encode_utf8 (strip_0x_commas d) = Inr enc
           \<and> files w' = files w @ [(diag @ py '' VCP '' @ fname @ py ''.xml'',
                 XmlDocument (vcp_document lg zn zv sa (hex (length enc div 2)) d))]"
proof -
  from loop_body_convert [OF assms(2)] obtain w1 where
    w1: "files w1 = files w" and cd: "convert_dataset ev fmt e l' w1 = (None, w')"
    by blast
  from convert_dataset_None [OF cd] assms(1) obtain d where
    d: "first_child_data e = Inr d"
    and cc: "call_convert_to_vcp ev d l' (w1\<lparr>dataset_counter := dataset_counter w1 + 1\<rparr>) = (None, w')"
    by auto
  from call_convert_to_vcp_None [OF cc] obtain diag sa zn zv lg fname where
    b: "diagnostic_address l' = Some diag" "start_address l' = Some sa" "zdc_name l' = Some zn"
       "zdc_version l' = Some zv" "login l' = Some lg" "filename l' = Some fname"
    and cv: "convert_to_vcp ev d diag sa zn zv lg fname
               (w1\<lparr>dataset_counter := dataset_counter w1 + 1\<rparr>) = (None, w')"
    by blast
  from convert_to_vcp_None(1) [OF cv] w1 obtain enc where
    "encode_utf8 (strip_0x_commas d) = Inr enc"
    "files w' = files w @ [(diag @ py '' VCP '' @ fname @ py ''.xml'',
                 XmlDocument (vcp_document lg zn zv sa (hex (length enc div 2)) d))]"
    by auto
  with b d show ?thesis by blast
qed

lemma loop_body_Inr_raw:
  assumes "fmt = Some (py ''raw'')" and "loop_body ev fmt fp e l w = (Inr l', w')"
  shows "\<exists>diag fname d bs.
           diagnostic_address l' = Some diag \<and> filename l' = Some fname
           \<and> first_child_data e = Inr d \<and> unhexlify (strip_0x_commas d) = Inr bs
           \<and> files w' = files w @ [(diag @ py '' '' @ fname @ py ''.bin'', Bytes bs)]"
proof -
  from loop_body_convert [OF assms(2)] obtain w1 where
    w1: "files w1 = files w" and cd: "convert_dataset ev fmt e l' w1 = (None, w')"
    by blast
  from convert_dataset_None [OF cd] assms(1) obtain d where
    d: "first_child_data e = Inr d"
    and cc: "call_extract_to_raw ev d l' (w1\<lparr>dataset_counter := dataset_counter w1 + 1\<rparr>) = (None, w')"
    by auto
  from call_extract_to_raw_None [OF cc] obtain diag fname where
    b: "diagnostic_address l' = Some diag" "filename l' = Some fname"
    and cv: "extract_to_raw ev (strip_0x_commas d) fname diag
               (w1\<lparr>dataset_counter := dataset_counter w1 + 1\<rparr>) = (None, w')"
    by blast
  from extract_to_raw_None(1) [OF cv] w1 obtain bs where
    "unhexlify (strip_0x_commas d) = Inr bs"
    "files w' = files w @ [(diag @ py '' '' @ fname @ py ''.bin'', Bytes bs)]"
    by auto
  with b d show ?thesis by blast
qed

lemma convert_dataset_counters:
  assumes "convert_dataset ev fmt e l w = (r, w')"
  shows "dataset_counter w' = dataset_counter w + 1"
    and "extracted_dataset_counter w' = extracted_dataset_counter w
         \<or> extracted_dataset_counter w' = extracted_dataset_counter w + 1"
    and "r = None \<longrightarrow> extracted_dataset_counter w' = extracted_dataset_counter w + 1"
proof -
  let ?w1 = "w\<lparr>dataset_counter := dataset_counter w + 1\<rparr>"
  show "dataset_counter w' = dataset_counter w + 1"
    using assms call_extract_to_raw_counters(1) [of ev _ l ?w1 r w']
      call_convert_to_vcp_counters(1) [of ev _ l ?w1 r w']
    by (auto simp: convert_dataset_def Let_def split: sum.splits if_splits)
  show "extracted_dataset_counter w' = extracted_dataset_counter w
         \<or> extracted_dataset_counter w' = extracted_dataset_counter w + 1"
    using assms call_extract_to_raw_counters(2) [of ev _ l ?w1 r w']
      call_convert_to_vcp_counters(2) [of ev _ l ?w1 r w']
    by (auto simp: convert_dataset_def Let_def split: sum.splits if_splits)
  show "r = None \<longrightarrow> extracted_dataset_counter w' = extracted_dataset_counter w + 1"
    using assms call_extract_to_raw_counters(3) [of ev _ l ?w1 r w']
      call_convert_to_vcp_counters(3) [of ev _ l ?w1 r w']
    by (auto simp: convert_dataset_def Let_def split: sum.splits if_splits)
qed

lemma loop_body_Inr_counters:
  assumes "loop_body ev fmt fp e l w = (Inr l', w')"
  shows "dataset_counter w' = dataset_counter w + 1"
    and "extracted_dataset_counter w' = extracted_dataset_counter w + 1"
proof -
  from loop_body_convert [OF assms] obtain w1 where
    w1: "dataset_counter w1 = dataset_counter w"
        "extracted_dataset_counter w1 = extracted_dataset_counter w"
    and cd: "convert_dataset ev fmt e l' w1 = (None, w')"
    by blast
  from convert_dataset_counters(1,3) [OF cd] w1
  show "dataset_counter w' = dataset_counter w + 1"
    and "extracted_dataset_counter w' = extracted_dataset_counter w + 1"
    by simp_all
qed

lemma loop_body_Inl_counters:
  assumes "loop_body ev fmt fp e l w = (Inl err, w')"
  shows "(dataset_counter w' = dataset_counter w
            \<and> extracted_dataset_counter w' = extracted_dataset_counter w)
         \<or> (dataset_counter w' = dataset_counter w + 1
            \<and> (extracted_dataset_counter w' = extracted_dataset_counter w
               \<or> extracted_dataset_counter w' = extracted_dataset_counter w + 1))"
proof -
  obtain r w1 where rl: "read_login fp e (attributes_read e l,
      w\<lparr>logged := logged w @ attributes_logged e\<rparr>) = (r, w1)"
    by fastforce
  show ?thesis
  proof (cases r)
    case (Inl err1)
    with assms rl have "w' = w1"
      by (auto simp: loop_body_def four_reads)
    with rl Inl read_login_Inl [of fp e "attributes_read e l" _ err1 w1]
    show ?thesis by simp
  next
    case (Inr l1)
    with rl read_login_Inr [of fp e "attributes_read e l" _ l1 w1]
    have w1: "dataset_counter w1 = dataset_counter w"
        "extracted_dataset_counter w1 = extracted_dataset_counter w"
      by simp_all
    from assms rl Inr obtain r2 where "convert_dataset ev fmt e l1 w1 = (r2, w')"
      by (auto simp: loop_body_def four_reads split: prod.splits option.splits)
    from convert_dataset_counters(1,2) [OF this] w1 show ?thesis by simp
  qed
qed

lemma for_loop_append:
  "for_loop ev fmt fp (xs @ ys) l w =
     (case for_loop ev fmt fp xs l w of
        (Inl err, w1) \<Rightarrow> (Inl err, w1)
      | (Inr l1, w1) \<Rightarrow> for_loop ev fmt fp ys l1 w1)"
  by (induction xs arbitrary: l w) (auto split: prod.splits sum.splits)

lemma for_loop_snoc_Inr:
  assumes "for_loop ev fmt fp (es @ [e]) l w = (Inr l', w')"
  shows "\<exists>l0 w0. for_loop ev fmt fp es l w = (Inr l0, w0)
           \<and> loop_body ev fmt fp e l0 w0 = (Inr l', w')"
  using assms
  by (auto simp: for_loop_append split: prod.splits sum.splits)
lemma for_loop_carry:
  assumes "for_loop ev fmt fp es no_locals w = (Inr l, w')"
  shows "diagnostic_address l =
           map_option (\<lambda>v. replace v (py ''0x00'') (py ''''))
             (last_declared (py ''DIAGNOSTIC_ADDRESS'') es)
       \<and> start_address l = last_declared (py ''START_ADDRESS'') es
       \<and> zdc_name l = last_declared (py ''ZDC_NAME'') es
       \<and> zdc_version l = last_declared (py ''ZDC_VERSION'') es
       \<and> login l = last_declared (py ''LOGIN'') es
       \<and> (upto_last_login es = [] \<longrightarrow> filename l = None)
       \<and> (upto_last_login es \<noteq> [] \<longrightarrow>
            (\<exists>sa zn. last_declared (py ''START_ADDRESS'') (upto_last_login es) = Some sa
               \<and> last_declared (py ''ZDC_NAME'') (upto_last_login es) = Some zn
               \<and> filename l = Some (sa @ py '' '' @ zn @ py '' - '' @ fp)))"
  using assms
proof (induction es arbitrary: l w' rule: rev_induct)
  case Nil
  then show ?case
    by (auto simp: no_locals_def last_declared_Nil upto_last_login_Nil)
next
  case (snoc e es)
  from for_loop_snoc_Inr [OF snoc.prems] obtain l0 w0 where
    pre: "for_loop ev fmt fp es no_locals w = (Inr l0, w0)"
    and body: "loop_body ev fmt fp e l0 w0 = (Inr l, w')"
    by blast
  note ih = snoc.IH [OF pre]
  have l: "l = locals_after fp e l0"
    using loop_body_locals(1) [OF body] .
  show ?case
  proof (cases "hasAttribute e (py ''LOGIN'')")
    case True
    from loop_body_locals(2) [OF body True] obtain sa zn where
      b: "start_address (attributes_read e l0) = Some sa"
         "zdc_name (attributes_read e l0) = Some zn"
      by auto
    from b ih have
      "last_declared (py ''START_ADDRESS'') (es @ [e]) = Some sa"
      "last_declared (py ''ZDC_NAME'') (es @ [e]) = Some zn"
      by (auto simp: attributes_read_def last_declared_snoc split: if_splits)
    with True ih b show ?thesis
      unfolding l
      by (simp add: locals_after_def attributes_read_def Let_def last_declared_snoc
          upto_last_login_snoc)
  next
    case False
    with ih show ?thesis
      unfolding l
      by (simp add: locals_after_def attributes_read_def Let_def last_declared_snoc
          upto_last_login_snoc)
  qed
qed

lemma for_loop_Inr_counters:
  assumes "for_loop ev fmt fp es l w = (Inr l', w')"
  shows "dataset_counter w' = dataset_counter w + int (length es)
       \<and> extracted_dataset_counter w' = extracted_dataset_counter w + int (length es)
       \<and> length (files w') = length (files w) + length es"
  using assms
proof (induction es arbitrary: l w)
  case Nil
  then show ?case by simp
next
  case (Cons e es)
  from Cons.prems obtain l1 w1 where
    body: "loop_body ev fmt fp e l w = (Inr l1, w1)"
    and rest: "for_loop ev fmt fp es l1 w1 = (Inr l', w')"
    by (auto split: prod.splits sum.splits)
  have "length (files w1) = length (files w) + 1"
  proof (cases "fmt = Some (py ''raw'')")
    case True
    from loop_body_Inr_raw [OF True body] show ?thesis by auto
  next
    case False
    from loop_body_Inr_vcp [OF False body] show ?thesis by auto
  qed
  with loop_body_Inr_counters [OF body] Cons.IH [OF rest] show ?case by simp
qed

lemma for_loop_counters_le:
  assumes "for_loop ev fmt fp es l w = (r, w')"
    and "extracted_dataset_counter w \<le> dataset_counter w"
  shows "extracted_dataset_counter w' \<le> dataset_counter w'
       \<and> dataset_counter w \<le> dataset_counter w'
       \<and> extracted_dataset_counter w \<le> extracted_dataset_counter w'"
  using assms
proof (induction es arbitrary: l w)
  case Nil
  then show ?case by auto
next
  case (Cons e es)
  obtain r1 w1 where body: "loop_body ev fmt fp e l w = (r1, w1)" by fastforce
  show ?case
  proof (cases r1)
    case (Inl err)
    with body Cons.prems(1) have "w' = w1" by simp
    with loop_body_Inl_counters [of ev fmt fp e l w err w1] body Inl Cons.prems(2)
    show ?thesis by auto
  next
    case (Inr l1)
    with body Cons.prems(1) have rest: "for_loop ev fmt fp es l1 w1 = (r, w')" by simp
    from loop_body_Inr_counters [of ev fmt fp e l w l1 w1] body Inr
    have c: "dataset_counter w1 = dataset_counter w + 1"
      "extracted_dataset_counter w1 = extracted_dataset_counter w + 1"
      by simp_all
    with Cons.prems(2) have "extracted_dataset_counter w1 \<le> dataset_counter w1" by simp
    from Cons.IH [OF rest this] c show ?thesis by simp
  qed
qed


section \<open>The file written for the last element of a run\<close>

lemma for_loop_last_file:
  assumes "for_loop ev fmt fp (es @ [e]) no_locals w = (Inr l, w')"
  shows "\<exists>da sa0 zn0 c.
           last_declared (py ''DIAGNOSTIC_ADDRESS'') (es @ [e]) = Some da
           \<and> last_declared (py ''START_ADDRESS'') (upto_last_login (es @ [e])) = Some sa0
           \<and> last_declared (py ''ZDC_NAME'') (upto_last_login (es @ [e])) = Some zn0
           \<and> last (files w') =
               (replace da (py ''0x00'') (py '''') @ path_infix fmt
                  @ (sa0 @ py '' '' @ zn0 @ py '' - '' @ fp) @ path_suffix fmt, c)
           \<and> (fmt = Some (py ''raw'') \<longrightarrow>
                (\<exists>d bs. first_child_data e = Inr d \<and> unhexlify (strip_0x_commas d) = Inr bs
                   \<and> c = Bytes bs))
           \<and> (fmt \<noteq> Some (py ''raw'') \<longrightarrow>
                (\<exists>sa zn zv lg d enc.
                   last_declared (py ''START_ADDRESS'') (es @ [e]) = Some sa
                   \<and> last_declared (py ''ZDC_NAME'') (es @ [e]) = Some zn
                   \<and> last_declared (py ''ZDC_VERSION'') (es @ [e]) = Some zv
                   \<and> last_declared (py ''LOGIN'') (es @ [e]) = Some lg
                   \<and> first_child_data e = Inr d
                   \<and> encode_utf8 (strip_0x_commas d) = Inr enc
                   \<and> c = XmlDocument (vcp_document lg zn zv sa (hex (length enc div 2)) d)))"
proof -
  from for_loop_snoc_Inr [OF assms] obtain l0 w0 where
    body: "loop_body ev fmt fp e l0 w0 = (Inr l, w')"
    by blast
  note carry = for_loop_carry [OF assms]
  show ?thesis
  proof (cases "fmt = Some (py ''raw'')")
    case True
    from loop_body_Inr_raw [OF True body] obtain diag fname d bs where
      b: "diagnostic_address l = Some diag" "filename l = Some fname"
      and d: "first_child_data e = Inr d" "unhexlify (strip_0x_commas d) = Inr bs"
      and f: "files w' = files w0 @ [(diag @ py '' '' @ fname @ py ''.bin'', Bytes bs)]"
      by blast
    from b(1) carry obtain da where
      da: "last_declared (py ''DIAGNOSTIC_ADDRESS'') (es @ [e]) = Some da"
        "diag = replace da (py ''0x00'') (py '''')"
      by auto
    from b(2) carry have "upto_last_login (es @ [e]) \<noteq> []" by auto
    with b(2) carry obtain sa0 zn0 where
      fn: "last_declared (py ''START_ADDRESS'') (upto_last_login (es @ [e])) = Some sa0"
        "last_declared (py ''ZDC_NAME'') (upto_last_login (es @ [e])) = Some zn0"
        "fname = sa0 @ py '' '' @ zn0 @ py '' - '' @ fp"
      by auto
    from True da fn d f show ?thesis
      by (simp add: path_infix_def path_suffix_def)
  next
    case False
    from loop_body_Inr_vcp [OF False body] obtain diag sa zn zv lg fname d enc where
      b: "diagnostic_address l = Some diag" "filename l = Some fname"
      and v: "start_address l = Some sa" "zdc_name l = Some zn" "zdc_version l = Some zv"
        "login l = Some lg"
      and d: "first_child_data e = Inr d" "encode_utf8 (strip_0x_commas d) = Inr enc"
      and f: "files w' = files w0 @ [(diag @ py '' VCP '' @ fname @ py ''.xml'',
                 XmlDocument (vcp_document lg zn zv sa (hex (length enc div 2)) d))]"
      by blast
    from b(1) carry obtain da where
      da: "last_declared (py ''DIAGNOSTIC_ADDRESS'') (es @ [e]) = Some da"
        "diag = replace da (py ''0x00'') (py '''')"
      by auto
    from b(2) carry have "upto_last_login (es @ [e]) \<noteq> []" by auto
    with b(2) carry obtain sa0 zn0 where
      fn: "last_declared (py ''START_ADDRESS'') (upto_last_login (es @ [e])) = Some sa0"
        "last_declared (py ''ZDC_NAME'') (upto_last_login (es @ [e])) = Some zn0"
        "fname = sa0 @ py '' '' @ zn0 @ py '' - '' @ fp"
      by auto
    from v carry have
      "last_declared (py ''START_ADDRESS'') (es @ [e]) = Some sa"
      "last_declared (py ''ZDC_NAME'') (es @ [e]) = Some zn"
      "last_declared (py ''ZDC_VERSION'') (es @ [e]) = Some zv"
      "last_declared (py ''LOGIN'') (es @ [e]) = Some lg"
      by simp_all
    with False da fn d f show ?thesis
      by (simp add: path_infix_def path_suffix_def)
  qed
qed


section \<open>A whole run\<close>

lemma parse_small_oe_file_for_loop:
  assumes "mdom_parse ev path = Inr root"
    and "for_loop ev fmt d (getElementsByTagName root (py ''PARAMETER_DATA'')) no_locals w = (r, w1)"
  shows "parse_small_oe_file ev fmt d path w = (case r of Inl err \<Rightarrow> Some err | Inr l \<Rightarrow> None, w1)"
  using assms by (simp add: parse_small_oe_file_def split: sum.splits)

lemma parse_small_oe_file_None:
  assumes "fst (parse_small_oe_file ev fmt d path w) = None"
  shows "\<exists>root l w1. mdom_parse ev path = Inr root
           \<and> for_loop ev fmt d (getElementsByTagName root (py ''PARAMETER_DATA'')) no_locals w
               = (Inr l, w1)
           \<and> parse_small_oe_file ev fmt d path w = (None, w1)"
  using assms
  by (auto simp: parse_small_oe_file_def split: sum.splits prod.splits)

lemma run_counters:
  assumes "parse_small_oe_file ev fmt d path w = (r, w1)"
  shows "dataset_counter (run ev fmt d path w) = dataset_counter w1"
    and "extracted_dataset_counter (run ev fmt d path w) = extracted_dataset_counter w1"
    and "files (run ev fmt d path w) = files w1"
  using assms by (auto simp: run_def info_def split: option.splits)

lemma run_logged_None:
  assumes "parse_small_oe_file ev fmt d path w = (None, w1)"
  shows "last (logged (run ev fmt d path w)) =
           (if fmt = Some (py ''raw'')
            then Info_datasets_extracted_format (extracted_dataset_counter w1)
                   (dataset_counter w1) (py ''raw'')
            else Info_datasets_extracted_VCP (extracted_dataset_counter w1) (dataset_counter w1))"
  using assms by (simp add: run_def info_def)


text \<open>The counters never go down, whatever happens in the loop.\<close>

lemma for_loop_counters_mono:
  assumes "for_loop ev fmt fp es l w = (r, w')"
  shows "dataset_counter w \<le> dataset_counter w'
       \<and> extracted_dataset_counter w \<le> extracted_dataset_counter w'"
  using assms
proof (induction es arbitrary: l w)
  case Nil
  then show ?case by auto
next
  case (Cons e es)
  obtain r1 w1 where body: "loop_body ev fmt fp e l w = (r1, w1)" by fastforce
  show ?case
  proof (cases r1)
    case (Inl err)
    with body Cons.prems have "w' = w1" by simp
    with loop_body_Inl_counters [of ev fmt fp e l w err w1] body Inl
    show ?thesis by auto
  next
    case (Inr l1)
    with body Cons.prems have rest: "for_loop ev fmt fp es l1 w1 = (r, w')" by simp
    from loop_body_Inr_counters [of ev fmt fp e l w l1 w1] body Inr Cons.IH [OF rest]
    show ?thesis by simp
  qed
qed

lemma parse_small_oe_file_counters_mono:
  assumes "parse_small_oe_file ev fmt d path w = (r, w1)"
  shows "dataset_counter w \<le> dataset_counter w1
       \<and> extracted_dataset_counter w \<le> extracted_dataset_counter w1"
proof (cases "mdom_parse ev path")
  case (Inl err)
  with assms show ?thesis by (simp add: parse_small_oe_file_def)
next
  case (Inr root)
  obtain r2 w2 where
    fl: "for_loop ev fmt d (getElementsByTagName root (py ''PARAMETER_DATA'')) no_locals w
      = (r2, w2)"
    by fastforce
  from parse_small_oe_file_for_loop [OF Inr fl] assms have "w1 = w2" by simp
  with for_loop_counters_mono [OF fl] show ?thesis by simp
qed

text \<open>
  \<open>getElementsByTagName\<close> selects the elements of that name strictly below its
  element: all those of the tree, but for the top element.
\<close>

lemma length_elements_count:
  "length (elements_in_node name n) = count_in_node name n"
  "length (getElementsByTagName e name) + (if tagName e = name then 1 else 0)
     = count_tagged name e"
proof (induction name n and e name rule: elements_in_node_getElementsByTagName.induct)
  case (6 t a cs name)
  then have "map (length \<circ> elements_in_node name) cs = map (count_in_node name) cs"
    by simp
  then have "sum_list (map (length \<circ> elements_in_node name) cs)
      = sum_list (map (count_in_node name) cs)"
    by (rule arg_cong)
  then show ?case
    by (simp add: length_concat)
qed (auto split: if_splits)

lemma length_getElementsByTagName:
  "length (getElementsByTagName e name)
     = count_tagged name e - (if tagName e = name then 1 else 0)"
  using length_elements_count(2) [of e name] by simp


section \<open>Stripping a payload twice\<close>

text \<open>
  C6 (as amended). Stripping \<open>0x\<close> and commas from a payload that has been stripped
  already changes nothing exactly when the stripped payload holds no \<open>0x\<close> any more;
  this is so whenever the stripped payload is made of hexadecimal digits only, which is
  the case of every valid payload. It is not so for every string: removing a \<open>0x\<close> or
  a comma can bring a \<open>0\<close> and an \<open>x\<close> together.
\<close>

theorem strip_0x_commas_twice:
  "(strip_0x_commas (strip_0x_commas p) = strip_0x_commas p
      \<longleftrightarrow> \<not> sublist (py ''0x'') (strip_0x_commas p))
   \<and> ((\<forall>c \<in> set (strip_0x_commas p). digit_value c \<noteq> None)
      \<longrightarrow> strip_0x_commas (strip_0x_commas p) = strip_0x_commas p)"
proof -
  have iff: "strip_0x_commas (strip_0x_commas p) = strip_0x_commas p
      \<longleftrightarrow> \<not> sublist (py ''0x'') (strip_0x_commas p)"
    using comma_notin_strip_0x_commas [of p] by (simp add: strip_fixed_iff)
  moreover have "(\<forall>c \<in> set (strip_0x_commas p). digit_value c \<noteq> None)
      \<longrightarrow> strip_0x_commas (strip_0x_commas p) = strip_0x_commas p"
    using iff hex_digits_no_0x [of "strip_0x_commas p"] by blast
  ultimately show ?thesis by blast
qed

theorem strip_0x_commas_twice_witness:
  "list_all (\<lambda>c. digit_value c \<noteq> None) (strip_0x_commas (py ''0x0A,0xFF''))
   \<and> \<not> sublist (py ''0x'') (strip_0x_commas (py ''0x0A,0xFF''))
   \<and> strip_0x_commas (strip_0x_commas (py ''0x0A,0xFF'')) = strip_0x_commas (py ''0x0A,0xFF'')"
proof -
  have h: "\<forall>c \<in> set (strip_0x_commas (py ''0x0A,0xFF'')). digit_value c \<noteq> None"
    unfolding strip_example by (simp add: py_simps digit_value_def)
  have n: "\<not> sublist (py ''0x'') (strip_0x_commas (py ''0x0A,0xFF''))"
    unfolding strip_example by (simp add: py_simps sublist_code)
  show ?thesis
    using h n strip_0x_commas_twice [of "py ''0x0A,0xFF''"] by (simp add: list_all_iff)
qed

text \<open>
  The payload \<open>00xx\<close>: the first pass removes the \<open>0x\<close> in the middle and leaves
  \<open>0x\<close>, which a second pass removes.
\<close>

theorem strip_0x_commas_not_idempotent:
  "strip_0x_commas (py ''00xx'') = py ''0x''
   \<and> strip_0x_commas (strip_0x_commas (py ''00xx'')) = py ''''
   \<and> strip_0x_commas (strip_0x_commas (py ''00xx'')) \<noteq> strip_0x_commas (py ''00xx'')"
  by (simp add: strip_0x_commas_def py_simps replace.simps)

section \<open>The diagnostic address that is stored\<close>

lemma replace_0x00_prefix:
  "replace (py ''0x00'' @ u) (py ''0x00'') new = new @ replace u (py ''0x00'') new"
proof -
  have "replace (48 # 120 # 48 # 48 # u) [48, 120, 48, 48] new
      = new @ replace (drop (length [48::nat, 120, 48, 48]) (48 # 120 # 48 # 48 # u))
          [48, 120, 48, 48] new"
    by (rule replace_Cons_prefix) simp_all
  then show ?thesis by (simp add: py_simps)
qed

text \<open>
  C4 (as amended). For every record element that carries \<open>DIAGNOSTIC_ADDRESS\<close>, the
  stored (and logged) diagnostic address is the attribute value with every occurrence of
  the four characters \<open>0x00\<close> removed, wherever it stands (left to right, in one pass).
  So a value in which \<open>0x00\<close> does not occur is stored unchanged, and a value made of
  \<open>0x00\<close> and a rest free of it is stored as that rest.
\<close>

theorem diagnostic_address_stored:
  assumes "hasAttribute e (py ''DIAGNOSTIC_ADDRESS'')"
    and "read_diagnostic_address e (l, w) = (l', w')"
  shows "diagnostic_address l'
           = Some (replace (getAttribute e (py ''DIAGNOSTIC_ADDRESS'')) (py ''0x00'') (py ''''))
       \<and> logged w' = logged w @ [Info_Module (the (diagnostic_address l'))]
       \<and> (\<not> sublist (py ''0x00'') (getAttribute e (py ''DIAGNOSTIC_ADDRESS''))
            \<longrightarrow> diagnostic_address l' = Some (getAttribute e (py ''DIAGNOSTIC_ADDRESS'')))
       \<and> (\<forall>u. getAttribute e (py ''DIAGNOSTIC_ADDRESS'') = py ''0x00'' @ u
                \<and> \<not> sublist (py ''0x00'') u
            \<longrightarrow> diagnostic_address l' = Some u)"
proof -
  let ?v = "getAttribute e (py ''DIAGNOSTIC_ADDRESS'')"
  have ne: "py ''0x00'' \<noteq> []" by (simp add: py_simps)
  from assms have st: "diagnostic_address l' = Some (replace ?v (py ''0x00'') (py ''''))"
    and lg: "logged w' = logged w @ [Info_Module (replace ?v (py ''0x00'') (py ''''))]"
    by (auto simp: read_diagnostic_address_def info_def Let_def)
  have a: "\<not> sublist (py ''0x00'') ?v \<longrightarrow> diagnostic_address l' = Some ?v"
    using st ne by (simp add: replace_no_occurrence)
  have b: "\<forall>u. ?v = py ''0x00'' @ u \<and> \<not> sublist (py ''0x00'') u
      \<longrightarrow> diagnostic_address l' = Some u"
  proof (intro allI impI)
    fix u
    assume h: "?v = py ''0x00'' @ u \<and> \<not> sublist (py ''0x00'') u"
    then have "replace ?v (py ''0x00'') (py '''') = replace u (py ''0x00'') (py '''')"
      using replace_0x00_prefix [of u "py ''''"] by (simp add: py_simps)
    also have "\<dots> = u"
      using h ne by (simp add: replace_no_occurrence)
    finally show "diagnostic_address l' = Some u" using st by simp
  qed
  from st lg a b show ?thesis by simp
qed

theorem diagnostic_address_stored_witness:
  "hasAttribute rec_full (py ''DIAGNOSTIC_ADDRESS'')
   \<and> getAttribute rec_full (py ''DIAGNOSTIC_ADDRESS'') = py ''0x00'' @ py ''19''
   \<and> \<not> sublist (py ''0x00'') (py ''19'')
   \<and> diagnostic_address (fst (read_diagnostic_address rec_full (no_locals, module_loaded)))
       = Some (py ''19'')"
proof -
  have h: "hasAttribute rec_full (py ''DIAGNOSTIC_ADDRESS'')"
    by (simp add: eval_defs)
  have g: "getAttribute rec_full (py ''DIAGNOSTIC_ADDRESS'') = py ''0x00'' @ py ''19''"
    by (simp add: eval_defs)
  have n: "\<not> sublist (py ''0x00'') (py ''19'')"
    by (simp add: py_simps sublist_code)
  from diagnostic_address_stored [OF h surjective_pairing] g n
  show ?thesis using h by blast
qed

text \<open>
  The value \<open>0x0019\<close> is stored as \<open>19\<close>: four characters are gone, not two, and
  the value is not unchanged either.
\<close>

theorem diagnostic_address_four_characters:
  "getAttribute rec_full (py ''DIAGNOSTIC_ADDRESS'') = py ''0x0019''
   \<and> diagnostic_address (fst (read_diagnostic_address rec_full (no_locals, module_loaded)))
       = Some (py ''19'')
   \<and> py ''19'' \<noteq> drop 2 (py ''0x0019'')
   \<and> py ''19'' \<noteq> py ''0x0019''"
  by (simp add: eval_defs)

section \<open>The size written by the structured converter\<close>



section \<open>The size and data nodes of the structured output\<close>

lemma texts_of_vcp_document:
  "texts_of (vcp_document lg zn zv sa size_text d) ''GROESSE-DEKOMPRIMIERT'' = [[Text size_text]]"
  "texts_of (vcp_document lg zn zv sa size_text d) ''DATEN'' = [[Text d]]"
  by (simp_all add: texts_of_def vcp_document_def text_element_def py_def)

lemma hex_digit_lowercase: "d < 16 \<Longrightarrow> lowercase_hex_digit (hex_digit d)"
  by (simp add: hex_digit_def lowercase_hex_digit_def)

lemma hex_digits_lowercase: "list_all lowercase_hex_digit (hex_digits n)"
proof (induction n rule: hex_digits.induct)
  case (1 n)
  show ?case
  proof (cases "n < 16")
    case True
    then show ?thesis
      using hex_digit_lowercase [of n] by (subst hex_digits.simps) simp
  next
    case False
    with 1 have "list_all lowercase_hex_digit (hex_digits (n div 16))" by simp
    moreover have "lowercase_hex_digit (hex_digit (n mod 16))"
      by (rule hex_digit_lowercase) simp
    ultimately show ?thesis
      using False by (subst hex_digits.simps) simp
  qed
qed

text \<open>
  C5 (as amended). For every record converted in structured mode, the text of the
  \<open>GROESSE-DEKOMPRIMIERT\<close> node is \<open>0x\<close> followed by the lowercase hexadecimal digits
  of the number of bytes of the UTF-8 encoding of the stripped payload, halved and
  rounded down, and the text of the \<open>DATEN\<close> node is the payload as it was, not
  stripped. The number of bytes is the number of characters of the stripped payload when
  these are all ASCII, as those of a hexadecimal payload are.
\<close>

theorem vcp_size_and_data_nodes:
  assumes "convert_to_vcp ev d diag sa zn zv lg fname w = (None, w')"
  shows "\<exists>path doc enc.
           last (files w') = (path, XmlDocument doc)
           \<and> encode_utf8 (strip_0x_commas d) = Inr enc
           \<and> texts_of doc ''GROESSE-DEKOMPRIMIERT'' = [[Text (hex (length enc div 2))]]
           \<and> hex (length enc div 2) = py ''0x'' @ hex_digits (length enc div 2)
           \<and> list_all lowercase_hex_digit (hex_digits (length enc div 2))
           \<and> hex_number (hex (length enc div 2)) = length enc div 2
           \<and> texts_of doc ''DATEN'' = [[Text d]]
           \<and> ((\<forall>c \<in> set (strip_0x_commas d). c < 128)
                \<longrightarrow> length enc = length (strip_0x_commas d))"
proof -
  from convert_to_vcp_None(1) [OF assms] obtain enc where
    enc: "encode_utf8 (strip_0x_commas d) = Inr enc"
    and f: "files w' = files w @ [(diag @ py '' VCP '' @ fname @ py ''.xml'',
                 XmlDocument (vcp_document lg zn zv sa (hex (length enc div 2)) d))]"
    by blast
  have "(\<forall>c \<in> set (strip_0x_commas d). c < 128) \<longrightarrow> length enc = length (strip_0x_commas d)"
    using enc encode_utf8_ascii [of "strip_0x_commas d"] by auto
  with enc f show ?thesis
    by (simp add: texts_of_vcp_document hex_def hex_digits_lowercase hex_number_hex [unfolded hex_def])
qed

text \<open>The payload \<open>0x0A,0xFF\<close>: the size is \<open>0x2\<close>, the data are \<open>0x0A,0xFF\<close>.\<close>

theorem vcp_size_and_data_nodes_witness:
  "\<exists>path doc.
     last (files (snd (convert_to_vcp (reads rec_full) (py ''0x0A,0xFF'') (py ''19'') (py ''A'')
        (py ''Z'') (py ''1'') (py ''L'') (py ''F'') module_loaded))) = (path, XmlDocument doc)
     \<and> texts_of doc ''GROESSE-DEKOMPRIMIERT'' = [[Text (py ''0x2'')]]
     \<and> texts_of doc ''DATEN'' = [[Text (py ''0x0A,0xFF'')]]"
proof -
  have e: "encode_utf8 (py ''0AFF'') = Inr (py ''0AFF'')"
    by (simp add: py_simps utf8_char_def)
  have c: "convert_to_vcp (reads rec_full) (py ''0x0A,0xFF'') (py ''19'') (py ''A'')
        (py ''Z'') (py ''1'') (py ''L'') (py ''F'') module_loaded
      = (None, snd (convert_to_vcp (reads rec_full) (py ''0x0A,0xFF'') (py ''19'') (py ''A'')
        (py ''Z'') (py ''1'') (py ''L'') (py ''F'') module_loaded))"
    by (simp add: convert_to_vcp_def strip_example e reads_def Let_def)
  have h: "hex (Suc (Suc 0)) = py ''0x2''"
    by (simp add: hex_def hex_digits.simps hex_digit_def py_simps)
  from vcp_size_and_data_nodes [OF c] show ?thesis
    unfolding strip_example e by (auto simp: py_simps h [unfolded py_simps])
qed

text \<open>
  The payload of the single character U+00E9: one character, none removed, and half of
  one is zero, yet the size written is \<open>0x1\<close>.
\<close>

theorem vcp_size_not_character_count:
  "strip_0x_commas [233] = [233]
   \<and> hex (length (strip_0x_commas [233]) div 2) = py ''0x0''
   \<and> convert_to_vcp (reads rec_full) [233] (py ''19'') (py ''A'') (py ''Z'') (py ''1'')
        (py ''L'') (py ''F'') module_loaded
      = (None,
         \<lparr>dataset_counter = 0, extracted_dataset_counter = 1,
          logged = [Info_Extracting_VCP (py ''19 VCP F.xml'')],
          files = [(py ''19 VCP F.xml'',
            XmlDocument (vcp_document (py ''L'') (py ''Z'') (py ''1'') (py ''A'')
              (py ''0x1'') [233]))]\<rparr>)"
  by (simp add: eval_defs)

section \<open>The raw export and the size of the structured output\<close>



section \<open>Attributes carried over from earlier records\<close>




section \<open>The path of an output file\<close>

text \<open>
  C3 (as amended). Take a run that has converted the record elements \<open>es\<close> and then
  \<open>e\<close>. The path written for \<open>e\<close> is, in raw mode, the diagnostic address, a space,
  the file name and \<open>.bin\<close>, and in structured mode the diagnostic address, \<open>VCP\<close>
  between two spaces, the file name and \<open>.xml\<close>. The diagnostic address is the most
  recently declared one with \<open>0x00\<close> removed. The file name is the start address, a
  space, the name, \<open>-\<close> between two spaces, and the description given to the run, where
  the start address and the name are those that were current at the last element, \<open>e\<close>
  or an earlier one, that declared \<open>LOGIN\<close>: the file name is assigned only there.
\<close>

theorem output_path:
  assumes "for_loop ev fmt fp (es @ [e]) no_locals w = (Inr l, w')"
  shows "\<exists>da sa0 zn0.
           last_declared (py ''DIAGNOSTIC_ADDRESS'') (es @ [e]) = Some da
           \<and> last_declared (py ''START_ADDRESS'') (upto_last_login (es @ [e])) = Some sa0
           \<and> last_declared (py ''ZDC_NAME'') (upto_last_login (es @ [e])) = Some zn0
           \<and> (fmt = Some (py ''raw'') \<longrightarrow>
                fst (last (files w')) =
                  replace da (py ''0x00'') (py '''') @ py '' ''
                    @ (sa0 @ py '' '' @ zn0 @ py '' - '' @ fp) @ py ''.bin'')
           \<and> (fmt \<noteq> Some (py ''raw'') \<longrightarrow>
                fst (last (files w')) =
                  replace da (py ''0x00'') (py '''') @ py '' VCP ''
                    @ (sa0 @ py '' '' @ zn0 @ py '' - '' @ fp) @ py ''.xml'')
           \<and> (hasAttribute e (py ''LOGIN'') \<longrightarrow> upto_last_login (es @ [e]) = es @ [e])"
proof -
  from for_loop_last_file [OF assms] obtain da sa0 zn0 c where
    "last_declared (py ''DIAGNOSTIC_ADDRESS'') (es @ [e]) = Some da"
    "last_declared (py ''START_ADDRESS'') (upto_last_login (es @ [e])) = Some sa0"
    "last_declared (py ''ZDC_NAME'') (upto_last_login (es @ [e])) = Some zn0"
    "last (files w') =
               (replace da (py ''0x00'') (py '''') @ path_infix fmt
                  @ (sa0 @ py '' '' @ zn0 @ py '' - '' @ fp) @ path_suffix fmt, c)"
    by blast
  then show ?thesis
    by (simp add: path_infix_def path_suffix_def upto_last_login_snoc)
qed

text \<open>
  A record with the five attributes, then one that declares the start address \<open>B\<close>
  only, in raw mode: the file name of the second is the one assigned at the first.
\<close>

theorem output_path_witness:
  "upto_last_login ([rec_full] @ [rec_start_only]) = [rec_full]
   \<and> last_declared (py ''START_ADDRESS'') [rec_full] = Some (py ''A'')
   \<and> last_declared (py ''ZDC_NAME'') [rec_full] = Some (py ''Z'')
   \<and> last_declared (py ''DIAGNOSTIC_ADDRESS'') ([rec_full] @ [rec_start_only])
       = Some (py ''0x0019'')
   \<and> fst (last (files (snd (for_loop (reads rec_full) (Some (py ''raw'')) (py ''D'')
         ([rec_full] @ [rec_start_only]) no_locals module_loaded))))
       = py ''19'' @ py '' '' @ (py ''A'' @ py '' '' @ py ''Z'' @ py '' - '' @ py ''D'') @ py ''.bin''
   \<and> hasAttribute rec_full (py ''LOGIN'')
   \<and> fst (last (files (snd (for_loop (reads rec_full) None (py ''D'')
         ([] @ [rec_full]) no_locals module_loaded))))
       = py ''19'' @ py '' VCP '' @ (py ''A'' @ py '' '' @ py ''Z'' @ py '' - '' @ py ''D'') @ py ''.xml''"
proof -
  have "\<exists>l w'. for_loop (reads rec_full) (Some (py ''raw'')) (py ''D'')
      ([rec_full] @ [rec_start_only]) no_locals module_loaded = (Inr l, w')"
    by (simp add: eval_defs)
  then obtain l w' where
    r: "for_loop (reads rec_full) (Some (py ''raw'')) (py ''D'')
      ([rec_full] @ [rec_start_only]) no_locals module_loaded = (Inr l, w')"
    by blast
  have "\<exists>l w'. for_loop (reads rec_full) None (py ''D'')
      ([] @ [rec_full]) no_locals module_loaded = (Inr l, w')"
    by (simp add: eval_defs)
  then obtain l2 w2 where
    r2: "for_loop (reads rec_full) None (py ''D'')
      ([] @ [rec_full]) no_locals module_loaded = (Inr l2, w2)"
    by blast
  from output_path [OF r] output_path [OF r2] show ?thesis
    by (simp add: eval_defs)
qed

text \<open>
  The same two records through the entry point. The first path is \<open>19 A Z - D.bin\<close>:
  between the start address and the name stands a space, not \<open>-\<close> between two spaces.
  The second record declares the start address \<open>B\<close>, and its path holds \<open>A\<close>.
\<close>

theorem output_path_not_from_own_start_address:
  "files (run (reads (document [rec_full, rec_start_only])) (Some (py ''raw'')) (py ''D'')
      (py ''in.xml'') module_loaded)
     = [(py ''19 A Z - D.bin'', Bytes [10, 255]), (py ''19 A Z - D.bin'', Bytes [1])]
   \<and> py ''19 A Z - D.bin'' \<noteq> py ''19 A - Z - D.bin''
   \<and> getAttribute rec_start_only (py ''START_ADDRESS'') = py ''B''
   \<and> last_declared (py ''START_ADDRESS'') [rec_full, rec_start_only] = Some (py ''B'')"
  by (simp add: eval_defs)

section \<open>The counters across runs\<close>

text \<open>
  C2 (as amended). The two counters are variables of the module: they are zero when the
  module has been loaded, no run resets them, and a run never lowers them. A run that
  completes adds the number of its record elements to both, so the values in its summary
  are those found at its start plus that number: the totals over all the runs made in
  the process so far. They are the numbers of that run's document alone only when the
  counters were zero at its start, as in the first run after the module was loaded.
\<close>

theorem counters_accumulate:
  "dataset_counter w \<le> dataset_counter (run ev fmt d path w)
   \<and> extracted_dataset_counter w \<le> extracted_dataset_counter (run ev fmt d path w)
   \<and> (fst (parse_small_oe_file ev fmt d path w) = None \<longrightarrow>
        (\<exists>root n. mdom_parse ev path = Inr root
           \<and> n = int (length (getElementsByTagName root (py ''PARAMETER_DATA'')))
           \<and> dataset_counter (run ev fmt d path w) = dataset_counter w + n
           \<and> extracted_dataset_counter (run ev fmt d path w) = extracted_dataset_counter w + n
           \<and> last (logged (run ev fmt d path w)) =
               (if fmt = Some (py ''raw'')
                then Info_datasets_extracted_format (extracted_dataset_counter w + n)
                       (dataset_counter w + n) (py ''raw'')
                else Info_datasets_extracted_VCP (extracted_dataset_counter w + n)
                       (dataset_counter w + n))))"
proof -
  obtain r w1 where p: "parse_small_oe_file ev fmt d path w = (r, w1)" by fastforce
  have mono: "dataset_counter w \<le> dataset_counter (run ev fmt d path w)
      \<and> extracted_dataset_counter w \<le> extracted_dataset_counter (run ev fmt d path w)"
    using parse_small_oe_file_counters_mono [OF p] run_counters(1,2) [OF p] by simp
  have "fst (parse_small_oe_file ev fmt d path w) = None \<longrightarrow>
        (\<exists>root n. mdom_parse ev path = Inr root
           \<and> n = int (length (getElementsByTagName root (py ''PARAMETER_DATA'')))
           \<and> dataset_counter (run ev fmt d path w) = dataset_counter w + n
           \<and> extracted_dataset_counter (run ev fmt d path w) = extracted_dataset_counter w + n
           \<and> last (logged (run ev fmt d path w)) =
               (if fmt = Some (py ''raw'')
                then Info_datasets_extracted_format (extracted_dataset_counter w + n)
                       (dataset_counter w + n) (py ''raw'')
                else Info_datasets_extracted_VCP (extracted_dataset_counter w + n)
                       (dataset_counter w + n)))"
  proof
    assume "fst (parse_small_oe_file ev fmt d path w) = None"
    from parse_small_oe_file_None [OF this] obtain root l w2 where
      root: "mdom_parse ev path = Inr root"
      and fl: "for_loop ev fmt d (getElementsByTagName root (py ''PARAMETER_DATA'')) no_locals w
               = (Inr l, w2)"
      and p2: "parse_small_oe_file ev fmt d path w = (None, w2)"
      by blast
    from for_loop_Inr_counters [OF fl] run_counters(1,2) [OF p2] run_logged_None [OF p2] root
    show "\<exists>root n. mdom_parse ev path = Inr root
           \<and> n = int (length (getElementsByTagName root (py ''PARAMETER_DATA'')))
           \<and> dataset_counter (run ev fmt d path w) = dataset_counter w + n
           \<and> extracted_dataset_counter (run ev fmt d path w) = extracted_dataset_counter w + n
           \<and> last (logged (run ev fmt d path w)) =
               (if fmt = Some (py ''raw'')
                then Info_datasets_extracted_format (extracted_dataset_counter w + n)
                       (dataset_counter w + n) (py ''raw'')
                else Info_datasets_extracted_VCP (extracted_dataset_counter w + n)
                       (dataset_counter w + n))"
      by simp
  qed
  with mono show ?thesis by blast
qed

text \<open>The first run after the module was loaded, on a document of two records.\<close>

theorem counters_accumulate_witness:
  "fst (parse_small_oe_file (reads (document [rec_full, rec_bare])) None (py ''D'')
      (py ''in.xml'') module_loaded) = None
   \<and> length (getElementsByTagName (document [rec_full, rec_bare]) (py ''PARAMETER_DATA'')) = 2
   \<and> dataset_counter module_loaded = 0 \<and> extracted_dataset_counter module_loaded = 0
   \<and> last (logged (run (reads (document [rec_full, rec_bare])) None (py ''D'') (py ''in.xml'')
        module_loaded)) = Info_datasets_extracted_VCP 2 2"
proof -
  have c: "fst (parse_small_oe_file (reads (document [rec_full, rec_bare])) None (py ''D'')
      (py ''in.xml'') module_loaded) = None"
    by (simp add: eval_defs)
  from counters_accumulate [of module_loaded "reads (document [rec_full, rec_bare])" None
      "py ''D''" "py ''in.xml''"] c
  show ?thesis
    by (simp add: eval_defs)
qed

text \<open>
  Two runs in one process on a document of one record: the summary of the second run
  reports two datasets of two.
\<close>

theorem counters_shared_across_runs:
  "length (getElementsByTagName (document [rec_full]) (py ''PARAMETER_DATA'')) = 1
   \<and> last (logged (run (reads (document [rec_full])) None (py ''D'') (py ''in.xml'')
        module_loaded)) = Info_datasets_extracted_VCP 1 1
   \<and> last (logged (run (reads (document [rec_full])) None (py ''D'') (py ''in.xml'')
        (run (reads (document [rec_full])) None (py ''D'') (py ''in.xml'') module_loaded)))
       = Info_datasets_extracted_VCP 2 2"
  by (simp add: eval_defs)

section \<open>What the counters count\<close>

text \<open>
  C8 (as amended). Every run keeps the converted records at most as many as the total. A
  run whose document is processed in full adds to both counters the number of
  record-tagged elements that stand below the document element (the document element is
  never selected, whatever its tag); the total equals that number when the counters were
  zero at the start of the run. A document with no record element below its document
  element completes and leaves both counters and the files as they were: at zero in a
  process that has just loaded the module.
\<close>

theorem counter_accounting:
  assumes "mdom_parse ev path = Inr root"
    and "extracted_dataset_counter w \<le> dataset_counter w"
  shows "extracted_dataset_counter (run ev fmt d path w) \<le> dataset_counter (run ev fmt d path w)
       \<and> (fst (parse_small_oe_file ev fmt d path w) = None \<longrightarrow>
            dataset_counter (run ev fmt d path w)
              = dataset_counter w + int (count_tagged (py ''PARAMETER_DATA'') root
                    - (if tagName root = py ''PARAMETER_DATA'' then 1 else 0))
            \<and> extracted_dataset_counter (run ev fmt d path w)
              = extracted_dataset_counter w + int (count_tagged (py ''PARAMETER_DATA'') root
                    - (if tagName root = py ''PARAMETER_DATA'' then 1 else 0)))
       \<and> (count_tagged (py ''PARAMETER_DATA'') root
              = (if tagName root = py ''PARAMETER_DATA'' then 1 else 0) \<longrightarrow>
            fst (parse_small_oe_file ev fmt d path w) = None
            \<and> dataset_counter (run ev fmt d path w) = dataset_counter w
            \<and> extracted_dataset_counter (run ev fmt d path w) = extracted_dataset_counter w
            \<and> files (run ev fmt d path w) = files w)"
proof -
  let ?es = "getElementsByTagName root (py ''PARAMETER_DATA'')"
  obtain r w1 where fl: "for_loop ev fmt d ?es no_locals w = (r, w1)" by fastforce
  note p = parse_small_oe_file_for_loop [OF assms(1) fl]
  have le: "extracted_dataset_counter (run ev fmt d path w) \<le> dataset_counter (run ev fmt d path w)"
    using for_loop_counters_le [OF fl assms(2)] run_counters(1,2) [OF p] by simp
  have full: "fst (parse_small_oe_file ev fmt d path w) = None \<longrightarrow>
            dataset_counter (run ev fmt d path w)
              = dataset_counter w + int (count_tagged (py ''PARAMETER_DATA'') root
                    - (if tagName root = py ''PARAMETER_DATA'' then 1 else 0))
            \<and> extracted_dataset_counter (run ev fmt d path w)
              = extracted_dataset_counter w + int (count_tagged (py ''PARAMETER_DATA'') root
                    - (if tagName root = py ''PARAMETER_DATA'' then 1 else 0))"
  proof
    assume "fst (parse_small_oe_file ev fmt d path w) = None"
    with p obtain l where r: "r = Inr l" by (cases r) simp_all
    from for_loop_Inr_counters [OF fl [unfolded r]] run_counters(1,2) [OF p]
      length_getElementsByTagName [of root "py ''PARAMETER_DATA''"]
    show "dataset_counter (run ev fmt d path w)
              = dataset_counter w + int (count_tagged (py ''PARAMETER_DATA'') root
                    - (if tagName root = py ''PARAMETER_DATA'' then 1 else 0))
            \<and> extracted_dataset_counter (run ev fmt d path w)
              = extracted_dataset_counter w + int (count_tagged (py ''PARAMETER_DATA'') root
                    - (if tagName root = py ''PARAMETER_DATA'' then 1 else 0))"
      by simp
  qed
  have none: "count_tagged (py ''PARAMETER_DATA'') root
              = (if tagName root = py ''PARAMETER_DATA'' then 1 else 0) \<longrightarrow>
            fst (parse_small_oe_file ev fmt d path w) = None
            \<and> dataset_counter (run ev fmt d path w) = dataset_counter w
            \<and> extracted_dataset_counter (run ev fmt d path w) = extracted_dataset_counter w
            \<and> files (run ev fmt d path w) = files w"
  proof
    assume "count_tagged (py ''PARAMETER_DATA'') root
              = (if tagName root = py ''PARAMETER_DATA'' then 1 else 0)"
    with length_getElementsByTagName [of root "py ''PARAMETER_DATA''"]
    have "?es = []" by simp
    with fl have "r = Inr no_locals" "w1 = w" by simp_all
    with p run_counters [OF p]
    show "fst (parse_small_oe_file ev fmt d path w) = None
            \<and> dataset_counter (run ev fmt d path w) = dataset_counter w
            \<and> extracted_dataset_counter (run ev fmt d path w) = extracted_dataset_counter w
            \<and> files (run ev fmt d path w) = files w"
      by simp
  qed
  from le full none show ?thesis by blast
qed

text \<open>
  In a process that has just loaded the module: a document of two records is counted as
  two of two, and a document with no record completes with zero of zero.
\<close>

theorem counter_accounting_witness:
  "mdom_parse (reads (document [rec_full, rec_bare])) (py ''in.xml'')
     = Inr (document [rec_full, rec_bare])
   \<and> extracted_dataset_counter module_loaded \<le> dataset_counter module_loaded
   \<and> count_tagged (py ''PARAMETER_DATA'') (document [rec_full, rec_bare]) = 2
   \<and> fst (parse_small_oe_file (reads (document [rec_full, rec_bare])) (Some (py ''raw''))
        (py ''D'') (py ''in.xml'') module_loaded) = None
   \<and> dataset_counter (run (reads (document [rec_full, rec_bare])) (Some (py ''raw''))
        (py ''D'') (py ''in.xml'') module_loaded) = 2
   \<and> extracted_dataset_counter (run (reads (document [rec_full, rec_bare])) (Some (py ''raw''))
        (py ''D'') (py ''in.xml'') module_loaded) = 2
   \<and> count_tagged (py ''PARAMETER_DATA'') (document []) = 0
   \<and> run (reads (document [])) (Some (py ''raw'')) (py ''D'') (py ''in.xml'') module_loaded
       = \<lparr>dataset_counter = 0, extracted_dataset_counter = 0,
          logged = [Info_datasets_extracted_format 0 0 (py ''raw'')], files = []\<rparr>"
proof -
  have m: "mdom_parse (reads (document [rec_full, rec_bare])) (py ''in.xml'')
     = Inr (document [rec_full, rec_bare])"
    by (simp add: reads_def)
  have m0: "mdom_parse (reads (document [])) (py ''in.xml'') = Inr (document [])"
    by (simp add: reads_def)
  have z: "extracted_dataset_counter module_loaded \<le> dataset_counter module_loaded"
    by (simp add: module_loaded_def)
  from counter_accounting [OF m z, of "Some (py ''raw'')" "py ''D''"]
    counter_accounting [OF m0 z, of "Some (py ''raw'')" "py ''D''"]
  show ?thesis
    by (simp add: eval_defs)
qed

text \<open>
  A document of one record run twice in one process leaves the total at two; and a
  document whose document element is itself the record has one record-tagged element,
  of which the run counts none.
\<close>

theorem total_is_not_the_count:
  "count_tagged (py ''PARAMETER_DATA'') (document [rec_full]) = 1
   \<and> dataset_counter (run (reads (document [rec_full])) None (py ''D'') (py ''in.xml'')
        (run (reads (document [rec_full])) None (py ''D'') (py ''in.xml'') module_loaded)) = 2
   \<and> count_tagged (py ''PARAMETER_DATA'') rec_full = 1
   \<and> run (reads rec_full) None (py ''D'') (py ''in.xml'') module_loaded
       = \<lparr>dataset_counter = 0, extracted_dataset_counter = 0,
          logged = [Info_datasets_extracted_VCP 0 0], files = []\<rparr>"
  by (simp add: eval_defs)

section \<open>A record element without a payload\<close>




end
